theory Spec2Isabelle
  imports Main
begin

text \<open>
  A model of \<open>models.py\<close>: the classes \<open>Document\<close> (\<open>__init__\<close>, \<open>__eq__\<close>) and
  \<open>Collection\<close> (\<open>__init__\<close>, \<open>__contains__\<close>, \<open>__getitem__\<close>, \<open>__add__\<close>,
  \<open>remove_ids\<close>, \<open>transform\<close>, \<open>resolve\<close>). Python objects that the code mutates and
  shares, the content dicts, live in a store and are referred to by reference; every
  function takes the state of the world and returns the new one; an exception is a value.
\<close>

section \<open>Values, dicts and the store\<close>

text \<open>
  The field values of a MongoDB document that the model covers: \<open>None\<close>, integers, strings
  and \<open>bson.ObjectId\<close>s. On these Python's \<open>==\<close> (and hashing, for set and dict
  membership) is structural equality: an \<open>ObjectId\<close> equals only an \<open>ObjectId\<close> with the
  same twelve bytes, never a string. An \<open>ObjectId\<close> is represented by \<open>str(oid)\<close>, its 24
  lower-case hexadecimal digits.
\<close>

datatype pyval = VNone | VInt int | VStr string | VOid string

text \<open>
  A \<open>dict\<close> keeps its keys in insertion order. It is an association list whose keys are
  pairwise distinct; \<open>d[k] = v\<close> overwrites in place or appends, \<open>d.pop(k, None)\<close> removes.
\<close>

type_synonym dict = "(string \<times> pyval) list"

definition keys :: "dict \<Rightarrow> string list" where
  "keys d = map fst d"

definition has_key :: "string \<Rightarrow> dict \<Rightarrow> bool" where
  "has_key k d = (map_of d k \<noteq> None)"

fun dict_set :: "dict \<Rightarrow> string \<Rightarrow> pyval \<Rightarrow> dict" where
  "dict_set [] k v = [(k, v)]"
| "dict_set ((k', v') # d) k v = (if k' = k then (k, v) # d else (k', v') # dict_set d k v)"

definition dict_pop :: "dict \<Rightarrow> string \<Rightarrow> dict" where
  "dict_pop d k = filter (\<lambda>kv. fst kv \<noteq> k) d"

text \<open>\<open>dict.get(k)\<close>: the value, or \<open>None\<close> for a missing key.\<close>

definition dict_get :: "dict \<Rightarrow> string \<Rightarrow> pyval" where
  "dict_get d k = (case map_of d k of None \<Rightarrow> VNone | Some v \<Rightarrow> v)"

subsection \<open>\<open>str\<close>, \<open>str.lower\<close>, \<open>str.replace\<close>\<close>

definition digit_char :: "nat \<Rightarrow> char" where
  "digit_char n = char_of (48 + n mod 10)"

fun digits :: "nat \<Rightarrow> string" where
  "digits n = (if n < 10 then [digit_char n] else digits (n div 10) @ [digit_char n])"

declare digits.simps [simp del]

definition str_int :: "int \<Rightarrow> string" where
  "str_int i = (if i < 0 then CHR ''-'' # digits (nat (- i)) else digits (nat i))"

fun str :: "pyval \<Rightarrow> string" where
  "str VNone = ''None''"
| "str (VInt i) = str_int i"
| "str (VStr s) = s"
| "str (VOid h) = h"

text \<open>
  A string is the list of its code points, for text whose code points are below 256.
  \<open>str.lower\<close> there moves the letters \<open>A\<close> to \<open>Z\<close> and the upper-case letters
  U+00C0 to U+00DE (all of that range but the multiplication sign U+00D7) up by 32, and
  leaves every other character as it is.
\<close>

definition lower_char :: "char \<Rightarrow> char" where
  "lower_char c =
     (let n = (of_char c :: nat)
      in if (65 \<le> n \<and> n \<le> 90) \<or> (192 \<le> n \<and> n \<le> 222 \<and> n \<noteq> 215)
         then char_of (n + 32) else c)"

definition lower :: "string \<Rightarrow> string" where
  "lower s = map lower_char s"

text \<open>\<open>s.replace(" ", "_")\<close>\<close>

definition replace_spaces :: "string \<Rightarrow> string" where
  "replace_spaces s = map (\<lambda>c. if c = CHR '' '' then CHR ''_'' else c) s"

subsection \<open>Errors, diagnostics, the world\<close>

text \<open>
  The exceptions the modelled code can raise. The three \<open>ValueError\<close>s of \<open>Collection\<close>
  differ by message only; the message kind is kept. \<open>InvalidId\<close> is \<open>bson.errors.InvalidId\<close>.
\<close>

datatype verr =
    InvalidDocsElement
  | InvalidDocsType
  | FieldsNotList
  | AddNonCollection
  | ConflictingIds "pyval set"

datatype error = ValueError verr | IndexError | TypeError | AttributeError | KeyError | InvalidId

record document =
  content :: nat
  id_str :: string

text \<open>
  An element of a Python list handed to, or held by, a \<open>Collection\<close>: a \<open>Document\<close>, a
  raw \<open>dict\<close> (by reference), or some other object.
\<close>

datatype elem = EDoc document | EDict nat | EOther

text \<open>The lines the code prints, one constructor per \<open>print\<close> statement, with its fields.\<close>

datatype diag =
    KeyNotIn string string
  | KeyDiffers string string pyval string pyval
  | NotADocument elem
  | DocumentNotIn string string
  | ColumnNotFound string string

text \<open>
  The state the code runs in: the store of dict objects (\<open>content\<close> attributes are
  references into it, so two documents can share one dict), the next free reference, the
  number of \<open>ObjectId()\<close> calls made so far, the printed lines, and the files written
  (\<open>json.dump\<close> of a list of dicts is kept as that list). A call that raises returns
  the exception alone: the state it leaves behind is not followed further.
\<close>

record world =
  heap :: "nat \<Rightarrow> dict"
  next_ref :: nat
  minted :: nat
  out :: "diag list"
  files :: "string \<rightharpoonup> dict list"

definition alloc :: "dict \<Rightarrow> world \<Rightarrow> nat \<times> world" where
  "alloc d w = (next_ref w, w\<lparr>heap := (heap w)(next_ref w := d), next_ref := Suc (next_ref w)\<rparr>)"

definition store :: "nat \<Rightarrow> dict \<Rightarrow> world \<Rightarrow> world" where
  "store r d w = w\<lparr>heap := (heap w)(r := d)\<rparr>"

definition print :: "diag \<Rightarrow> world \<Rightarrow> world" where
  "print x w = w\<lparr>out := out w @ [x]\<rparr>"

subsection \<open>\<open>ObjectId\<close> and the pattern\<close>

definition hex_char :: "nat \<Rightarrow> char" where
  "hex_char n = ''0123456789abcdef'' ! (n mod 16)"

fun hex_digits :: "nat \<Rightarrow> nat \<Rightarrow> string" where
  "hex_digits 0 n = []"
| "hex_digits (Suc k) n = hex_digits k (n div 16) @ [hex_char n]"

text \<open>
  \<open>ObjectId()\<close> mints an identifier that no earlier call returned. The model numbers the
  calls: the \<open>n\<close>-th call returns the twelve bytes that spell \<open>n\<close>.
\<close>

definition new_ObjectId :: "world \<Rightarrow> string \<times> world" where
  "new_ObjectId w = (hex_digits 24 (minted w), w\<lparr>minted := Suc (minted w)\<rparr>)"

definition is_hex_lower :: "char \<Rightarrow> bool" where
  "is_hex_lower c = (c \<in> set ''0123456789abcdef'')"

text \<open>
  \<open>re.match("^[a-f0-9]{24}$", s)\<close>. Without the \<open>MULTILINE\<close> flag Python's \<open>$\<close> matches
  at the end of the string and also just before a line feed that ends the string, so the
  pattern accepts 24 digits and 24 digits followed by one line feed.
\<close>

definition re_match :: "string \<Rightarrow> bool" where
  "re_match s = (list_all is_hex_lower (take 24 s) \<and>
     (length s = 24 \<or> (length s = 25 \<and> drop 24 s = [CHR 0x0A])))"

text \<open>
  \<open>ObjectId(s)\<close> for a string \<open>s\<close>: bson accepts a string of exactly 24 hexadecimal
  digits and raises \<open>InvalidId\<close> for a string of any other length. The one call site passes
  strings the pattern accepted, whose first 24 characters are lower-case digits.
\<close>

definition ObjectId :: "string \<Rightarrow> error + pyval" where
  "ObjectId s = (if length s = 24 then Inr (VOid s) else Inl InvalidId)"

section \<open>\<open>Document\<close>\<close>

text \<open>
  Lines 15 to 25 of \<open>Document.__init__\<close>: the identity. \<open>ids\<close> is any sequence of
  strings; with one element the field's value is used (a new \<open>ObjectId\<close> is stored under
  \<open>_id\<close> when the field is missing), otherwise the values of the present fields are
  joined, and \<open>str.join\<close> raises \<open>TypeError\<close> on a value that is not a \<open>str\<close>.
\<close>

fun join_strs :: "pyval list \<Rightarrow> error + string" where
  "join_strs [] = Inr []"
| "join_strs (VStr s # vs) = (case join_strs vs of Inl e \<Rightarrow> Inl e | Inr t \<Rightarrow> Inr (s @ t))"
| "join_strs (_ # vs) = Inl TypeError"

definition derive_id :: "nat \<Rightarrow> string list \<Rightarrow> world \<Rightarrow> error + (string \<times> world)" where
  "derive_id r ids w =
     (if length ids = 1 then
        (case map_of (heap w r) (hd ids) of
           Some v \<Rightarrow> Inr ((case v of VStr s \<Rightarrow> replace_spaces s | _ \<Rightarrow> str v), w)
         | None \<Rightarrow>
             (let (new_id, w1) = new_ObjectId w
              in Inr (str (VOid new_id), store r (dict_set (heap w1 r) ''_id'' (VOid new_id)) w1)))
      else
        (case join_strs (map (dict_get (heap w r)) (filter (\<lambda>i. has_key i (heap w r)) ids)) of
           Inl e \<Rightarrow> Inl e
         | Inr s \<Rightarrow> Inr (replace_spaces s, w)))"

text \<open>
  Lines 27 to 30: every value that is a \<open>str\<close> the pattern accepts is replaced by
  \<open>ObjectId(value)\<close>. The loop visits the keys in order and reads and writes the value of
  the key it visits, which for a dict is a pass over its items.
\<close>

definition normalize_value :: "pyval \<Rightarrow> error + pyval" where
  "normalize_value v = (case v of VStr s \<Rightarrow> if re_match s then ObjectId s else Inr v | _ \<Rightarrow> Inr v)"

fun normalize_identifiers :: "dict \<Rightarrow> error + dict" where
  "normalize_identifiers [] = Inr []"
| "normalize_identifiers ((k, v) # d) =
     (case normalize_value v of
        Inl e \<Rightarrow> Inl e
      | Inr v' \<Rightarrow> (case normalize_identifiers d of Inl e \<Rightarrow> Inl e | Inr d' \<Rightarrow> Inr ((k, v') # d')))"

definition Document_init :: "nat \<Rightarrow> string list \<Rightarrow> world \<Rightarrow> error + (document \<times> world)" where
  "Document_init r ids w =
     (case derive_id r ids w of
        Inl e \<Rightarrow> Inl e
      | Inr (i, w1) \<Rightarrow>
          (case normalize_identifiers (heap w1 r) of
             Inl e \<Rightarrow> Inl e
           | Inr c \<Rightarrow> Inr (\<lparr>content = r, id_str = i\<rparr>, store r c w1)))"

text \<open>
  \<open>Document.__eq__\<close>, lines 38 to 51. The loop runs over the fields of \<open>self\<close>, skips
  the five excluded names, prints and goes on when \<open>other\<close> lacks the field, and prints and
  returns \<open>False\<close> at the first field whose lower-cased string forms differ.
\<close>

definition excluded_keys :: "string list" where
  "excluded_keys = [''created_at'', ''updated_at'', ''createdAt'', ''updatedAt'', ''_id'']"

fun eq_loop :: "dict \<Rightarrow> string \<Rightarrow> dict \<Rightarrow> string \<Rightarrow> world \<Rightarrow> bool \<times> world" where
  "eq_loop [] sid oc oid w = (True, w)"
| "eq_loop ((k, v) # rest) sid oc oid w =
     (if k \<in> set excluded_keys then eq_loop rest sid oc oid w
      else (case map_of oc k of
              None \<Rightarrow> eq_loop rest sid oc oid (print (KeyNotIn k oid) w)
            | Some ov \<Rightarrow>
                if lower (str v) \<noteq> lower (str ov)
                then (False, print (KeyDiffers k sid v oid ov) w)
                else eq_loop rest sid oc oid w))"

definition Document_eq :: "document \<Rightarrow> elem \<Rightarrow> world \<Rightarrow> bool \<times> world" where
  "Document_eq self other w =
     (case other of
        EDoc d \<Rightarrow> eq_loop (heap w (content self)) (id_str self) (heap w (content d)) (id_str d) w
      | _ \<Rightarrow> (False, print (NotADocument other) w))"

section \<open>\<open>Collection\<close>\<close>

record collection =
  name :: string
  skip_values :: "(string \<times> pyval list) list"
  documents :: "elem list"

text \<open>
  What \<open>Collection.__init__\<close> accepts as \<open>docs\<close>: \<open>None\<close>, a \<open>MongoCollection\<close> (given
  by the dicts its \<open>find()\<close> yields), a \<open>Collection\<close>, a list, or anything else. Other
  arguments of the methods are a list of field names, a \<open>Collection\<close>, or anything else.
\<close>

datatype source = SNone | SMongo "dict list" | SCollection collection | SList "elem list" | SOther

datatype pyarg = AList "string list" | ACollection collection | AOther

text \<open>\<open>[Document(doc, ids) for doc in docs.find()]\<close>: each yielded dict is a new object.\<close>

fun load_documents :: "dict list \<Rightarrow> string list \<Rightarrow> world \<Rightarrow> error + (elem list \<times> world)" where
  "load_documents [] ids w = Inr ([], w)"
| "load_documents (d # ds) ids w =
     (let (r, w1) = alloc d w
      in case Document_init r ids w1 of
           Inl e \<Rightarrow> Inl e
         | Inr (doc, w2) \<Rightarrow>
             (case load_documents ds ids w2 of
                Inl e \<Rightarrow> Inl e
              | Inr (docs, w3) \<Rightarrow> Inr (EDoc doc # docs, w3)))"

text \<open>
  \<open>[Document(doc, ids) for doc in docs]\<close> for a list whose first element is a dict. An
  element that is not a dict fails inside \<open>Document.__init__\<close>, which uses it as one.
\<close>

fun build_documents :: "elem list \<Rightarrow> string list \<Rightarrow> world \<Rightarrow> error + (elem list \<times> world)" where
  "build_documents [] ids w = Inr ([], w)"
| "build_documents (EDict r # es) ids w =
     (case Document_init r ids w of
        Inl e \<Rightarrow> Inl e
      | Inr (doc, w1) \<Rightarrow>
          (case build_documents es ids w1 of
             Inl e \<Rightarrow> Inl e
           | Inr (docs, w2) \<Rightarrow> Inr (EDoc doc # docs, w2)))"
| "build_documents (_ # es) ids w = Inl TypeError"

text \<open>
  \<open>Collection.__init__\<close>, lines 57 to 74. In the list branch \<open>docs[0]\<close> is read before
  anything else, which raises \<open>IndexError\<close> on the empty list.
\<close>

definition Collection_init ::
  "string \<Rightarrow> source \<Rightarrow> string list \<Rightarrow> (string \<times> pyval list) list \<Rightarrow> world \<Rightarrow> error + (collection \<times> world)"
where
  "Collection_init nm docs ids sv w =
     (case docs of
        SNone \<Rightarrow> Inr (\<lparr>name = nm, skip_values = sv, documents = []\<rparr>, w)
      | SMongo ds \<Rightarrow>
          (case load_documents ds ids w of
             Inl e \<Rightarrow> Inl e
           | Inr (ds', w1) \<Rightarrow> Inr (\<lparr>name = nm, skip_values = sv, documents = ds'\<rparr>, w1))
      | SCollection c \<Rightarrow> Inr (\<lparr>name = nm, skip_values = sv, documents = documents c\<rparr>, w)
      | SList es \<Rightarrow>
          (case es of
             [] \<Rightarrow> Inl IndexError
           | EDoc d # _ \<Rightarrow> Inr (\<lparr>name = nm, skip_values = sv, documents = es\<rparr>, w)
           | EDict r # _ \<Rightarrow>
               (case build_documents es ids w of
                  Inl e \<Rightarrow> Inl e
                | Inr (ds', w1) \<Rightarrow> Inr (\<lparr>name = nm, skip_values = sv, documents = ds'\<rparr>, w1))
           | EOther # _ \<Rightarrow> Inl (ValueError InvalidDocsElement))
      | SOther \<Rightarrow> Inl (ValueError InvalidDocsType))"

subsection \<open>\<open>__contains__\<close>\<close>

text \<open>The inner loop of lines 97 to 101: some rule's field is present with a listed value.\<close>

definition skipped :: "(string \<times> pyval list) list \<Rightarrow> dict \<Rightarrow> bool" where
  "skipped sv c = list_ex (\<lambda>(k, vals). has_key k c \<and> dict_get c k \<in> set vals) sv"

text \<open>\<open>[doc2 for doc2 in self.documents if doc.id == doc2.id]\<close>\<close>

fun matching :: "string \<Rightarrow> elem list \<Rightarrow> error + document list" where
  "matching i [] = Inr []"
| "matching i (EDoc d2 # es) =
     (case matching i es of
        Inl e \<Rightarrow> Inl e
      | Inr ms \<Rightarrow> Inr (if i = id_str d2 then d2 # ms else ms))"
| "matching i (_ # es) = Inl AttributeError"

text \<open>
  \<open>[doc] == ms\<close>: lists of different lengths are unequal without any element being
  compared; for one element each, the elements are compared with \<open>doc.__eq__\<close> (Python
  skips the call when both are the same object, where the call would print nothing and
  return \<open>True\<close>).
\<close>

definition singleton_eq :: "document \<Rightarrow> document list \<Rightarrow> world \<Rightarrow> bool \<times> world" where
  "singleton_eq doc ms w = (case ms of [d2] \<Rightarrow> Document_eq doc (EDoc d2) w | _ \<Rightarrow> (False, w))"

fun contains_loop ::
  "collection \<Rightarrow> collection \<Rightarrow> elem list \<Rightarrow> nat list \<Rightarrow> world \<Rightarrow> error + (nat list \<times> world)"
where
  "contains_loop self item [] not_in w = Inr (not_in, w)"
| "contains_loop self item (EDoc doc # rest) not_in w =
     (if skipped (skip_values item) (heap w (content doc)) then contains_loop self item rest not_in w
      else (case matching (id_str doc) (documents self) of
              Inl e \<Rightarrow> Inl e
            | Inr ms \<Rightarrow>
                (case singleton_eq doc ms w of
                   (True, w1) \<Rightarrow> contains_loop self item rest not_in w1
                 | (False, w1) \<Rightarrow>
                     contains_loop self item rest (not_in @ [content doc])
                       (print (DocumentNotIn (id_str doc) (name item)) w1))))"
| "contains_loop self item (_ # rest) not_in w = Inl AttributeError"

text \<open>Lines 115 to 117: every value of every collected dict is overwritten by its \<open>str\<close>.\<close>

definition stringify :: "dict \<Rightarrow> dict" where
  "stringify d = map (\<lambda>(k, v). (k, VStr (str v))) d"

fun stringify_all :: "nat list \<Rightarrow> world \<Rightarrow> world" where
  "stringify_all [] w = w"
| "stringify_all (r # rs) w = stringify_all rs (store r (stringify (heap w r)) w)"

definition contains :: "collection \<Rightarrow> collection \<Rightarrow> world \<Rightarrow> error + (bool \<times> world)" where
  "contains self item w =
     (case contains_loop self item (documents item) [] w of
        Inl e \<Rightarrow> Inl e
      | Inr (not_in, w1) \<Rightarrow>
          if not_in = [] then Inr (True, w1)
          else (let w2 = stringify_all not_in w1
                in Inr (False, w2\<lparr>files := (files w2)(''not_in.json'' \<mapsto> map (heap w2) not_in)\<rparr>)))"

subsection \<open>\<open>__getitem__\<close>\<close>

text \<open>\<open>{field: doc.content[field] for field in fields if field in doc.content}\<close>\<close>

definition slice_dict :: "string list \<Rightarrow> dict \<Rightarrow> dict" where
  "slice_dict flds c =
     foldl (\<lambda>d f. dict_set d f (dict_get c f)) [] (filter (\<lambda>f. has_key f c) flds)"

text \<open>
  The outer comprehension of line 130 builds one new dict per document, all of them
  before \<open>Collection\<close> is called. An element without a \<open>content\<close> attribute raises
  \<open>AttributeError\<close>.
\<close>

fun slice_documents :: "string list \<Rightarrow> elem list \<Rightarrow> world \<Rightarrow> error + (elem list \<times> world)" where
  "slice_documents flds [] w = Inr ([], w)"
| "slice_documents flds (EDoc doc # es) w =
     (let (r, w1) = alloc (slice_dict flds (heap w (content doc))) w
      in case slice_documents flds es w1 of
           Inl e \<Rightarrow> Inl e
         | Inr (rs, w2) \<Rightarrow> Inr (EDict r # rs, w2))"
| "slice_documents flds (_ # es) w = Inl AttributeError"

definition getitem :: "collection \<Rightarrow> pyarg \<Rightarrow> world \<Rightarrow> error + (collection \<times> world)" where
  "getitem self flds w =
     (case flds of
        AList fs \<Rightarrow>
          (case slice_documents fs (documents self) w of
             Inl e \<Rightarrow> Inl e
           | Inr (sliced_docs, w1) \<Rightarrow> Collection_init (name self) (SList sliced_docs) [''_id''] [] w1)
      | _ \<Rightarrow> Inl (ValueError FieldsNotList))"

subsection \<open>\<open>__add__\<close>\<close>

text \<open>\<open>[doc.content.get('_id') for doc in docs]\<close>: \<open>None\<close> stands for a missing field.\<close>

fun id_values :: "elem list \<Rightarrow> world \<Rightarrow> error + pyval list" where
  "id_values [] w = Inr []"
| "id_values (EDoc doc # es) w =
     (case id_values es w of
        Inl e \<Rightarrow> Inl e
      | Inr vs \<Rightarrow> Inr (dict_get (heap w (content doc)) ''_id'' # vs))"
| "id_values (_ # es) w = Inl AttributeError"

definition add :: "collection \<Rightarrow> pyarg \<Rightarrow> world \<Rightarrow> error + (collection \<times> world)" where
  "add self other w =
     (case other of
        ACollection oth \<Rightarrow>
          (case id_values (documents self) w of
             Inl e \<Rightarrow> Inl e
           | Inr self_ids \<Rightarrow>
               (case id_values (documents oth) w of
                  Inl e \<Rightarrow> Inl e
                | Inr other_ids \<Rightarrow>
                    (let conflicting_ids = set self_ids \<inter> set other_ids
                     in if conflicting_ids \<noteq> {} then Inl (ValueError (ConflictingIds conflicting_ids))
                        else Collection_init (name self @ ''_and_'' @ name oth)
                               (SList (documents self @ documents oth)) [''_id''] [] w)))
      | _ \<Rightarrow> Inl (ValueError AddNonCollection))"

subsection \<open>\<open>remove_ids\<close>\<close>

text \<open>
  Lines 160 to 164: \<open>new_doc = doc.content\<close> is the document's own dict, not a copy, so
  \<open>pop\<close> changes it in the store; the list collects the dicts themselves.
\<close>

fun pop_ids :: "elem list \<Rightarrow> world \<Rightarrow> error + (elem list \<times> world)" where
  "pop_ids [] w = Inr ([], w)"
| "pop_ids (EDoc doc # es) w =
     (case pop_ids es (store (content doc) (dict_pop (heap w (content doc)) ''_id'') w) of
        Inl e \<Rightarrow> Inl e
      | Inr (rs, w1) \<Rightarrow> Inr (EDict (content doc) # rs, w1))"
| "pop_ids (_ # es) w = Inl AttributeError"

text \<open>
  A method with an \<open>in_place\<close> flag returns the collection \<open>self\<close> as the call leaves it,
  the collection the call returns (\<open>None\<close> when it works in place) and the world.
\<close>

definition remove_ids ::
  "collection \<Rightarrow> bool \<Rightarrow> world \<Rightarrow> error + (collection \<times> collection option \<times> world)"
where
  "remove_ids self in_place w =
     (case pop_ids (documents self) w of
        Inl e \<Rightarrow> Inl e
      | Inr (new_documents, w1) \<Rightarrow>
          if in_place then Inr (self\<lparr>documents := new_documents\<rparr>, None, w1)
          else (case Collection_init (name self) (SList new_documents) [''_id''] [] w1 of
                  Inl e \<Rightarrow> Inl e
                | Inr (c, w2) \<Rightarrow> Inr (self, Some c, w2)))"

subsection \<open>\<open>transform\<close> and \<open>resolve\<close>\<close>

text \<open>
  Both pass \<open>doc.id\<close>, a \<open>str\<close>, where \<open>Document.__init__\<close> expects the list \<open>ids\<close>.
  \<open>len\<close>, indexing and iteration treat a \<open>str\<close> as the sequence of its one-character
  strings.
\<close>

definition chars_of :: "string \<Rightarrow> string list" where
  "chars_of s = map (\<lambda>c. [c]) s"

fun transform_documents ::
  "string \<Rightarrow> string \<Rightarrow> (pyval \<Rightarrow> pyval) \<Rightarrow> elem list \<Rightarrow> world \<Rightarrow> error + (elem list \<times> world)"
where
  "transform_documents new_name column func [] w = Inr ([], w)"
| "transform_documents new_name column func (EDoc doc # es) w =
     (let (r, w1) = alloc (heap w (content doc)) w;
          w2 = (if has_key column (heap w1 r)
                then store r (dict_set (heap w1 r) new_name (func (dict_get (heap w1 r) column))) w1
                else (let w1' = print (ColumnNotFound column (id_str doc)) w1
                      in store r (dict_set (heap w1' r) new_name (VStr ''UNAVAILABLE'')) w1'))
      in case Document_init r (chars_of (id_str doc)) w2 of
           Inl e \<Rightarrow> Inl e
         | Inr (d, w3) \<Rightarrow>
             (case transform_documents new_name column func es w3 of
                Inl e \<Rightarrow> Inl e
              | Inr (ds, w4) \<Rightarrow> Inr (EDoc d # ds, w4)))"
| "transform_documents new_name column func (_ # es) w = Inl AttributeError"

definition transform ::
  "collection \<Rightarrow> string \<Rightarrow> string \<Rightarrow> (pyval \<Rightarrow> pyval) \<Rightarrow> bool \<Rightarrow> world \<Rightarrow>
     error + (collection \<times> collection option \<times> world)"
where
  "transform self new_name column func in_place w =
     (case transform_documents new_name column func (documents self) w of
        Inl e \<Rightarrow> Inl e
      | Inr (new_documents, w1) \<Rightarrow>
          if in_place then Inr (self\<lparr>documents := new_documents\<rparr>, None, w1)
          else (case Collection_init (name self) (SList new_documents) [''_id''] [] w1 of
                  Inl e \<Rightarrow> Inl e
                | Inr (c, w2) \<Rightarrow> Inr (self, Some c, w2)))"

text \<open>
  \<open>{doc.content["_id"]: doc.content for doc in other.documents}\<close>: a later document
  replaces an earlier one with the same \<open>_id\<close>; a document without \<open>_id\<close> raises \<open>KeyError\<close>.
  The entries are kept newest first, so that \<open>map_of\<close> finds the one the dict holds.
\<close>

fun build_lookup :: "elem list \<Rightarrow> (pyval \<times> nat) list \<Rightarrow> world \<Rightarrow> error + (pyval \<times> nat) list" where
  "build_lookup [] acc w = Inr acc"
| "build_lookup (EDoc doc # es) acc w =
     (case map_of (heap w (content doc)) ''_id'' of
        None \<Rightarrow> Inl KeyError
      | Some v \<Rightarrow> build_lookup es ((v, content doc) # acc) w)"
| "build_lookup (_ # es) acc w = Inl AttributeError"

fun resolve_keys :: "(string \<times> string) list \<Rightarrow> (pyval \<times> nat) list \<Rightarrow> nat \<Rightarrow> world \<Rightarrow> world" where
  "resolve_keys [] lookup r w = w"
| "resolve_keys ((key_self, key_other) # m) lookup r w =
     resolve_keys m lookup r
       (if has_key key_self (heap w r)
        then (case map_of lookup (dict_get (heap w r) key_self) of
                Some ro \<Rightarrow> store r (dict_set (heap w r) key_self (dict_get (heap w ro) key_other)) w
              | None \<Rightarrow> w)
        else w)"

fun resolve_documents ::
  "(string \<times> string) list \<Rightarrow> (pyval \<times> nat) list \<Rightarrow> elem list \<Rightarrow> world \<Rightarrow> error + (elem list \<times> world)"
where
  "resolve_documents m lookup [] w = Inr ([], w)"
| "resolve_documents m lookup (EDoc doc # es) w =
     (let (r, w1) = alloc (heap w (content doc)) w;
          w2 = resolve_keys m lookup r w1
      in case Document_init r (chars_of (id_str doc)) w2 of
           Inl e \<Rightarrow> Inl e
         | Inr (d, w3) \<Rightarrow>
             (case resolve_documents m lookup es w3 of
                Inl e \<Rightarrow> Inl e
              | Inr (ds, w4) \<Rightarrow> Inr (EDoc d # ds, w4)))"
| "resolve_documents m lookup (_ # es) w = Inl AttributeError"

definition resolve ::
  "collection \<Rightarrow> collection \<Rightarrow> (string \<times> string) list \<Rightarrow> bool \<Rightarrow> world \<Rightarrow>
     error + (collection \<times> collection option \<times> world)"
where
  "resolve self other m in_place w =
     (case build_lookup (documents other) [] w of
        Inl e \<Rightarrow> Inl e
      | Inr lookup \<Rightarrow>
          (case resolve_documents m lookup (documents self) w of
             Inl e \<Rightarrow> Inl e
           | Inr (new_documents, w1) \<Rightarrow>
               if in_place then Inr (self\<lparr>documents := new_documents\<rparr>, None, w1)
               else (case Collection_init (name self) (SList new_documents) [''_id''] [] w1 of
                       Inl e \<Rightarrow> Inl e
                     | Inr (c, w2) \<Rightarrow> Inr (self, Some c, w2))))"

section \<open>Notions used in the statements\<close>

text \<open>
  A collection keeps its invariant when every element of \<open>documents\<close> is a \<open>Document\<close>;
  \<open>docs_in\<close> lists the documents among the elements.
\<close>

definition is_doc :: "elem \<Rightarrow> bool" where
  "is_doc e = (case e of EDoc d \<Rightarrow> True | _ \<Rightarrow> False)"

definition only_documents :: "collection \<Rightarrow> bool" where
  "only_documents c = list_all is_doc (documents c)"

fun docs_in :: "elem list \<Rightarrow> document list" where
  "docs_in [] = []"
| "docs_in (EDoc d # es) = d # docs_in es"
| "docs_in (_ # es) = docs_in es"

text \<open>
  For \<open>Document.__eq__\<close>: the fields of the left record that are compared, whether one of
  them agrees with the right record's content, and the warnings for the fields the right
  record lacks. \<open>eq_printed\<close> is what a comparison prints, whatever its verdict: the
  warnings for the missing fields among the compared fields that come before the first
  disagreeing one, and then, when a field disagrees, the line for that field.
\<close>

definition compared :: "dict \<Rightarrow> dict" where
  "compared d = filter (\<lambda>kv. fst kv \<notin> set excluded_keys) d"

definition field_agrees :: "dict \<Rightarrow> string \<times> pyval \<Rightarrow> bool" where
  "field_agrees oc kv =
     (case map_of oc (fst kv) of None \<Rightarrow> True | Some ov \<Rightarrow> lower (str (snd kv)) = lower (str ov))"

definition absent_warnings :: "dict \<Rightarrow> dict \<Rightarrow> string \<Rightarrow> diag list" where
  "absent_warnings d oc oid =
     map (\<lambda>kv. KeyNotIn (fst kv) oid) (filter (\<lambda>kv. map_of oc (fst kv) = None) (compared d))"

definition eq_printed :: "dict \<Rightarrow> string \<Rightarrow> dict \<Rightarrow> string \<Rightarrow> diag list" where
  "eq_printed d sid oc oid =
     map (\<lambda>kv. KeyNotIn (fst kv) oid)
       (filter (\<lambda>kv. map_of oc (fst kv) = None) (takeWhile (field_agrees oc) (compared d)))
     @ (case dropWhile (field_agrees oc) (compared d) of
          [] \<Rightarrow> []
        | kv # rest \<Rightarrow>
            (case map_of oc (fst kv) of
               None \<Rightarrow> []
             | Some ov \<Rightarrow> [KeyDiffers (fst kv) sid (snd kv) oid ov]))"

text \<open>
  For \<open>__add__\<close>: \<open>get_ids\<close> is the list the code builds with \<open>content.get('_id')\<close>, in
  which \<open>None\<close> stands for every record without the field. \<open>field_ids\<close> follows the
  specification's words instead: the values of the reserved identity field, of the records
  that have it; two sets share an identifier when these meet.
\<close>

definition get_ids :: "collection \<Rightarrow> world \<Rightarrow> pyval list" where
  "get_ids c w = map (\<lambda>d. dict_get (heap w (content d)) ''_id'') (docs_in (documents c))"

definition field_ids :: "collection \<Rightarrow> world \<Rightarrow> pyval list" where
  "field_ids c w = List.map_filter (\<lambda>d. map_of (heap w (content d)) ''_id'') (docs_in (documents c))"

definition share_identifier :: "collection \<Rightarrow> collection \<Rightarrow> world \<Rightarrow> bool" where
  "share_identifier a b w = (set (field_ids a w) \<inter> set (field_ids b w) \<noteq> {})"

text \<open>
  For \<open>__contains__\<close>: the documents of \<open>a\<close> with a given identity; the test the
  code makes for a record \<open>d\<close> of the audited collection (exactly one document of \<open>a\<close>
  has the identity of \<open>d\<close>, and \<open>d\<close> equals it); the records the skip-value rules of
  \<open>b\<close> do not exclude; those among them that fail the test; and the lines
  \<open>__contains__\<close> itself prints. \<open>has_equal_record\<close> and \<open>contains_all_spec\<close> follow the
  specification's words instead: some document of \<open>a\<close> has the identity of \<open>d\<close> and
  is equal to it.
\<close>

definition same_id_docs :: "string \<Rightarrow> collection \<Rightarrow> document list" where
  "same_id_docs i c = filter (\<lambda>d2. i = id_str d2) (docs_in (documents c))"

definition found_equal :: "collection \<Rightarrow> world \<Rightarrow> document \<Rightarrow> bool" where
  "found_equal a w d =
     (case same_id_docs (id_str d) a of [d2] \<Rightarrow> fst (Document_eq d (EDoc d2) w) | _ \<Rightarrow> False)"

definition audited :: "collection \<Rightarrow> world \<Rightarrow> elem list \<Rightarrow> document list" where
  "audited b w es = filter (\<lambda>d. \<not> skipped (skip_values b) (heap w (content d))) (docs_in es)"

definition failing :: "collection \<Rightarrow> collection \<Rightarrow> world \<Rightarrow> elem list \<Rightarrow> document list" where
  "failing a b w es = filter (\<lambda>d. \<not> found_equal a w d) (audited b w es)"

definition is_not_in :: "diag \<Rightarrow> bool" where
  "is_not_in x = (case x of DocumentNotIn i n \<Rightarrow> True | _ \<Rightarrow> False)"

definition has_equal_record :: "collection \<Rightarrow> world \<Rightarrow> document \<Rightarrow> bool" where
  "has_equal_record a w d =
     list_ex (\<lambda>d2. id_str d2 = id_str d \<and> fst (Document_eq d (EDoc d2) w)) (docs_in (documents a))"

definition contains_all_spec :: "collection \<Rightarrow> collection \<Rightarrow> world \<Rightarrow> bool" where
  "contains_all_spec a b w = list_all (has_equal_record a w) (audited b w (documents b))"

text \<open>
  For normalization and \<open>__getitem__\<close>: the values on which \<open>ObjectId\<close> raises (the
  pattern accepts them and they are not 24 characters long), the dicts without such a
  value, what normalization makes of a value and of a dict when it returns, and a dict
  with the \<open>_id\<close> that \<open>Document.__init__\<close> adds when the key field \<open>_id\<close> is missing.
\<close>

definition line_feed_id :: "pyval \<Rightarrow> bool" where
  "line_feed_id v = (case v of VStr s \<Rightarrow> re_match s \<and> length s \<noteq> 24 | _ \<Rightarrow> False)"

definition normalizable :: "dict \<Rightarrow> bool" where
  "normalizable d = list_all (\<lambda>kv. \<not> line_feed_id (snd kv)) d"

definition normalized_value :: "pyval \<Rightarrow> pyval" where
  "normalized_value v = (case v of VStr s \<Rightarrow> if re_match s then VOid s else v | _ \<Rightarrow> v)"

definition normalized :: "dict \<Rightarrow> dict" where
  "normalized d = map (\<lambda>kv. (fst kv, normalized_value (snd kv))) d"

definition with_id :: "dict \<Rightarrow> nat \<Rightarrow> dict" where
  "with_id c n = (if has_key ''_id'' c then c else dict_set c ''_id'' (VOid (hex_digits 24 n)))"

section \<open>Concrete inputs\<close>

text \<open>A world whose store holds the given dicts at the references 0, 1, ... and nothing else.\<close>

definition world_of :: "dict list \<Rightarrow> world" where
  "world_of ds = \<lparr>heap = (\<lambda>r. if r < length ds then ds ! r else []), next_ref = length ds,
     minted = 0, out = [], files = Map.empty\<rparr>"

text \<open>
  \<open>Collection('c', [{'_id': 'u1', 'name': 'x'}])\<close>: one record, keyed by \<open>_id\<close>, with the
  identity \<open>u1\<close>.
\<close>

definition one_world :: world where
  "one_world = world_of [[(''_id'', VStr ''u1''), (''name'', VStr ''x'')]]"

definition one_doc :: collection where
  "one_doc = \<lparr>name = ''c'', skip_values = [], documents = [EDoc \<lparr>content = 0, id_str = ''u1''\<rparr>]\<rparr>"

text \<open>Two records for \<open>__eq__\<close>: the left one has a field \<open>b\<close> that the right one lacks.\<close>

definition eq_world :: world where
  "eq_world = world_of [[(''a'', VStr ''Ab''), (''_id'', VInt 1), (''b'', VInt 7)],
                        [(''a'', VStr ''aB''), (''_id'', VInt 2)]]"

definition eq_left :: document where
  "eq_left = \<lparr>content = 0, id_str = ''1''\<rparr>"

definition eq_right :: document where
  "eq_right = \<lparr>content = 1, id_str = ''2''\<rparr>"

text \<open>
  The records \<open>{'a': 1, 'b': 2}\<close> and \<open>{'b': 3}\<close>: the right one lacks \<open>a\<close> and
  differs in \<open>b\<close>.
\<close>

definition neq_world :: world where
  "neq_world = world_of [[(''a'', VInt 1), (''b'', VInt 2)], [(''b'', VInt 3)]]"

definition neq_left :: document where
  "neq_left = \<lparr>content = 0, id_str = ''l''\<rparr>"

definition neq_right :: document where
  "neq_right = \<lparr>content = 1, id_str = ''r''\<rparr>"

text \<open>Two collections with the distinct identifiers \<open>1\<close> and \<open>2\<close>.\<close>

definition two_world :: world where
  "two_world = world_of [[(''_id'', VStr ''1''), (''name'', VStr ''x'')],
                         [(''_id'', VStr ''2''), (''name'', VStr ''y'')]]"

definition coll_a :: collection where
  "coll_a = \<lparr>name = ''a'', skip_values = [], documents = [EDoc \<lparr>content = 0, id_str = ''1''\<rparr>]\<rparr>"

definition coll_b :: collection where
  "coll_b = \<lparr>name = ''b'', skip_values = [], documents = [EDoc \<lparr>content = 1, id_str = ''2''\<rparr>]\<rparr>"

text \<open>
  \<open>Collection('a', [{'name': 'x'}], ids=['name'])\<close> and
  \<open>Collection('b', [{'name': 'y'}], ids=['name'])\<close>: records keyed by \<open>name\<close>, none of
  which has the field \<open>_id\<close>.
\<close>

definition no_id_world :: world where
  "no_id_world = world_of [[(''name'', VStr ''x'')], [(''name'', VStr ''y'')]]"

definition no_id_a :: collection where
  "no_id_a = \<lparr>name = ''a'', skip_values = [], documents = [EDoc \<lparr>content = 0, id_str = ''x''\<rparr>]\<rparr>"

definition no_id_b :: collection where
  "no_id_b = \<lparr>name = ''b'', skip_values = [], documents = [EDoc \<lparr>content = 1, id_str = ''y''\<rparr>]\<rparr>"

text \<open>\<open>Collection('a', None)\<close> and \<open>Collection('b', None)\<close>: no records.\<close>

definition empty_a :: collection where
  "empty_a = \<lparr>name = ''a'', skip_values = [], documents = []\<rparr>"

definition empty_b :: collection where
  "empty_b = \<lparr>name = ''b'', skip_values = [], documents = []\<rparr>"

text \<open>
  \<open>Collection('a', [{'_id': '1', 'name': 'x'}, {'_id': '1', 'name': 'x'}])\<close>, which holds
  the identity \<open>1\<close> twice, and \<open>Collection('b', [{'_id': '1', 'name': 'x'}])\<close>.
\<close>

definition dup_world :: world where
  "dup_world = world_of [[(''_id'', VStr ''1''), (''name'', VStr ''x'')],
                         [(''_id'', VStr ''1''), (''name'', VStr ''x'')],
                         [(''_id'', VStr ''1''), (''name'', VStr ''x'')]]"

definition dup_a :: collection where
  "dup_a = \<lparr>name = ''a'', skip_values = [],
     documents = [EDoc \<lparr>content = 0, id_str = ''1''\<rparr>, EDoc \<lparr>content = 1, id_str = ''1''\<rparr>]\<rparr>"

definition dup_b :: collection where
  "dup_b = \<lparr>name = ''b'', skip_values = [], documents = [EDoc \<lparr>content = 2, id_str = ''1''\<rparr>]\<rparr>"

text \<open>
  A collection \<open>a\<close> with the identities \<open>1\<close> and \<open>2\<close>, and a collection \<open>b\<close> that
  skips the records whose \<open>status\<close> is \<open>done\<close> and holds the identities \<open>1\<close> (with
  the name in upper case) and \<open>3\<close> (with the status \<open>done\<close>).
\<close>

definition audit_world :: world where
  "audit_world = world_of [[(''_id'', VStr ''1''), (''name'', VStr ''x''), (''status'', VStr ''active'')],
                           [(''_id'', VStr ''2''), (''name'', VStr ''y''), (''status'', VStr ''done'')],
                           [(''_id'', VStr ''1''), (''name'', VStr ''X''), (''status'', VStr ''active'')],
                           [(''_id'', VStr ''3''), (''name'', VStr ''z''), (''status'', VStr ''done'')]]"

definition audit_a :: collection where
  "audit_a = \<lparr>name = ''a'', skip_values = [],
     documents = [EDoc \<lparr>content = 0, id_str = ''1''\<rparr>, EDoc \<lparr>content = 1, id_str = ''2''\<rparr>]\<rparr>"

definition audit_b :: collection where
  "audit_b = \<lparr>name = ''b'', skip_values = [(''status'', [VStr ''done''])],
     documents = [EDoc \<lparr>content = 2, id_str = ''1''\<rparr>, EDoc \<lparr>content = 3, id_str = ''3''\<rparr>]\<rparr>"

section \<open>Basic facts\<close>

lemma heap_print [simp]: "heap (print x w) = heap w"
  by (simp add: print_def)

lemma out_print [simp]: "out (print x w) = out w @ [x]"
  by (simp add: print_def)

lemma files_print [simp]: "files (print x w) = files w"
  by (simp add: print_def)

lemma minted_print [simp]: "minted (print x w) = minted w"
  by (simp add: print_def)

lemma next_ref_print [simp]: "next_ref (print x w) = next_ref w"
  by (simp add: print_def)

lemma docs_in_all: "list_all is_doc es \<Longrightarrow> map EDoc (docs_in es) = es"
  by (induction es rule: docs_in.induct) (simp_all add: is_doc_def)

lemma Collection_init_docs:
  "list_all is_doc es \<Longrightarrow> es \<noteq> [] \<Longrightarrow>
     Collection_init nm (SList es) ids sv w = Inr (\<lparr>name = nm, skip_values = sv, documents = es\<rparr>, w)"
  by (cases es) (auto simp: Collection_init_def is_doc_def split: elem.splits)

section \<open>\<open>Document.__eq__\<close>\<close>

lemma eq_loop_fst:
  "fst (eq_loop d sid oc oid w) = list_all (field_agrees oc) (compared d)"
  by (induction d arbitrary: w)
     (auto simp: field_agrees_def compared_def split: option.splits if_splits)

lemma eq_loop_heap: "heap (snd (eq_loop d sid oc oid w)) = heap w"
  by (induction d arbitrary: w) (auto split: option.splits)

lemma eq_loop_out_true:
  "fst (eq_loop d sid oc oid w) \<Longrightarrow>
     snd (eq_loop d sid oc oid w) = w\<lparr>out := out w @ absent_warnings d oc oid\<rparr>"
proof (induction d arbitrary: w)
  case Nil
  then show ?case by (simp add: absent_warnings_def compared_def)
next
  case (Cons kv d)
  obtain k v where kv: "kv = (k, v)" by (cases kv)
  show ?case
  proof (cases "k \<in> set excluded_keys")
    case True
    with Cons kv show ?thesis by (simp add: absent_warnings_def compared_def)
  next
    case False
    show ?thesis
    proof (cases "map_of oc k")
      case None
      with Cons.prems kv False have "fst (eq_loop d sid oc oid (print (KeyNotIn k oid) w))" by simp
      from Cons.IH[OF this] None kv False show ?thesis
        by (simp add: absent_warnings_def compared_def print_def)
    next
      case (Some ov)
      with Cons.prems kv False have eq: "lower (str v) = lower (str ov)"
        by (auto split: if_splits)
      with Cons.prems kv False Some have "fst (eq_loop d sid oc oid w)" by simp
      from Cons.IH[OF this] Some kv False eq show ?thesis
        by (simp add: absent_warnings_def compared_def)
    qed
  qed
qed

lemma eq_loop_cong:
  "(\<forall>kv \<in> set d. map_of oc' (fst kv) = map_of oc (fst kv)) \<Longrightarrow>
     eq_loop d sid oc' oid w = eq_loop d sid oc oid w"
  by (induction d arbitrary: w) (auto split: option.splits)

lemma eq_loop_refl_aux:
  "distinct (map fst d) \<Longrightarrow> (\<forall>kv \<in> set d. map_of oc (fst kv) = Some (snd kv)) \<Longrightarrow>
     eq_loop d sid oc oid w = (True, w)"
  by (induction d arbitrary: w) (auto split: option.splits)

lemma eq_loop_refl: "distinct (map fst d) \<Longrightarrow> eq_loop d sid d oid w = (True, w)"
  by (rule eq_loop_refl_aux) auto

lemma eq_loop_snd:
  "snd (eq_loop d sid oc oid w) = w\<lparr>out := out w @ eq_printed d sid oc oid\<rparr>"
proof (induction d arbitrary: w)
  case Nil
  then show ?case by (simp add: eq_printed_def compared_def)
next
  case (Cons kv d)
  obtain k v where kv: "kv = (k, v)" by (cases kv)
  show ?case
  proof (cases "k \<in> set excluded_keys")
    case True
    with Cons kv show ?thesis by (simp add: eq_printed_def compared_def)
  next
    case False
    show ?thesis
    proof (cases "map_of oc k")
      case None
      with Cons[of "print (KeyNotIn k oid) w"] kv False show ?thesis
        by (simp add: eq_printed_def compared_def field_agrees_def print_def)
    next
      case (Some ov)
      with Cons[of w] kv False show ?thesis
        by (simp add: eq_printed_def compared_def field_agrees_def print_def)
    qed
  qed
qed

lemma eq_printed_true:
  assumes "list_all (field_agrees oc) (compared d)"
  shows "eq_printed d sid oc oid = absent_warnings d oc oid"
proof -
  from assms have t: "takeWhile (field_agrees oc) (compared d) = compared d"
    by (simp add: list_all_iff)
  from assms have dw: "dropWhile (field_agrees oc) (compared d) = []"
    by (simp add: list_all_iff)
  show ?thesis
    unfolding eq_printed_def absent_warnings_def t dw by simp
qed

lemma lower_latin1:
  "lower [char_of (201::nat), CHR ''Z'', char_of (215::nat)] =
     [char_of (233::nat), CHR ''z'', char_of (215::nat)]"
  by code_simp

text \<open>
  Claim C5. \<open>L.__eq__(R)\<close> for two documents returns \<open>True\<close> exactly when every field of
  \<open>L\<close> outside the five excluded names is either missing in \<open>R\<close> or has the same
  lower-cased string form on both sides. Whatever the verdict, the comparison changes
  nothing but the printed output, and what it prints is \<open>eq_printed\<close>: one warning for
  each compared field that \<open>R\<close> lacks, in order, up to the first field that disagrees,
  and then the line for that field; so a missing field is reported and the comparison goes
  on, and the first mismatch ends it with \<open>False\<close>. When the result is \<open>True\<close> these are
  the warnings for all compared fields that \<open>R\<close> lacks. The result and the printed lines
  depend on \<open>R\<close> only through the fields \<open>L\<close> has, so fields that only \<open>R\<close> has are
  never examined. A document whose content equals the content of \<open>L\<close> is equal to \<open>L\<close>,
  with nothing printed.
\<close>

theorem Document_eq_contract:
  "(fst (Document_eq L (EDoc R) w) \<longleftrightarrow>
      (\<forall>(k, v) \<in> set (heap w (content L)). k \<notin> set excluded_keys \<longrightarrow>
         (map_of (heap w (content R)) k = None \<or>
          (\<exists>ov. map_of (heap w (content R)) k = Some ov \<and> lower (str v) = lower (str ov)))))
   \<and> snd (Document_eq L (EDoc R) w) =
        w\<lparr>out := out w @ eq_printed (heap w (content L)) (id_str L) (heap w (content R)) (id_str R)\<rparr>
   \<and> heap (snd (Document_eq L (EDoc R) w)) = heap w
   \<and> (fst (Document_eq L (EDoc R) w) \<longrightarrow>
        out (snd (Document_eq L (EDoc R) w)) =
          out w @ absent_warnings (heap w (content L)) (heap w (content R)) (id_str R))
   \<and> ((\<forall>k \<in> set (keys (heap w (content L))).
          map_of (heap w (content R')) k = map_of (heap w (content R)) k) \<and> id_str R' = id_str R
        \<longrightarrow> Document_eq L (EDoc R') w = Document_eq L (EDoc R) w)
   \<and> (distinct (keys (heap w (content L))) \<and> heap w (content R) = heap w (content L)
        \<longrightarrow> Document_eq L (EDoc R) w = (True, w))"
proof (intro conjI impI)
  show "fst (Document_eq L (EDoc R) w) \<longleftrightarrow>
      (\<forall>(k, v) \<in> set (heap w (content L)). k \<notin> set excluded_keys \<longrightarrow>
         (map_of (heap w (content R)) k = None \<or>
          (\<exists>ov. map_of (heap w (content R)) k = Some ov \<and> lower (str v) = lower (str ov))))"
    by (auto simp: Document_eq_def eq_loop_fst list_all_iff field_agrees_def compared_def
        split: option.splits)
  show "snd (Document_eq L (EDoc R) w) =
        w\<lparr>out := out w @ eq_printed (heap w (content L)) (id_str L) (heap w (content R)) (id_str R)\<rparr>"
    by (simp add: Document_eq_def eq_loop_snd)
  show "heap (snd (Document_eq L (EDoc R) w)) = heap w"
    by (simp add: Document_eq_def eq_loop_heap)
  show "out (snd (Document_eq L (EDoc R) w)) =
          out w @ absent_warnings (heap w (content L)) (heap w (content R)) (id_str R)"
    if "fst (Document_eq L (EDoc R) w)"
    using that eq_loop_out_true[of "heap w (content L)" "id_str L" "heap w (content R)" "id_str R" w]
    by (simp add: Document_eq_def)
  show "Document_eq L (EDoc R') w = Document_eq L (EDoc R) w"
    if "(\<forall>k \<in> set (keys (heap w (content L))).
          map_of (heap w (content R')) k = map_of (heap w (content R)) k) \<and> id_str R' = id_str R"
    using that eq_loop_cong[of "heap w (content L)" "heap w (content R')" "heap w (content R)"]
    by (simp add: Document_eq_def keys_def)
  show "Document_eq L (EDoc R) w = (True, w)"
    if "distinct (keys (heap w (content L))) \<and> heap w (content R) = heap w (content L)"
    using that by (simp add: Document_eq_def keys_def eq_loop_refl)
qed

text \<open>
  The contract at \<open>{'a': 'Ab', '_id': 1, 'b': 7}\<close> against \<open>{'a': 'aB', '_id': 2}\<close>: the
  records are equal, and the missing field \<open>b\<close> is reported. And at \<open>{'a': 1, 'b': 2}\<close>
  against \<open>{'b': 3}\<close>: the records are not equal, the missing field \<open>a\<close> is reported
  first and the mismatch in \<open>b\<close> after it.
\<close>

theorem Document_eq_contract_witness:
  "fst (Document_eq eq_left (EDoc eq_right) eq_world)
   \<and> out (snd (Document_eq eq_left (EDoc eq_right) eq_world)) = [KeyNotIn ''b'' ''2'']
   \<and> \<not> fst (Document_eq neq_left (EDoc neq_right) neq_world)
   \<and> out (snd (Document_eq neq_left (EDoc neq_right) neq_world)) =
       [KeyNotIn ''a'' ''r'', KeyDiffers ''b'' ''l'' (VInt 2) ''r'' (VInt 3)]"
proof -
  have low: "lower ''Ab'' = lower ''aB''" by code_simp
  have agree: "\<forall>(k, v) \<in> set (heap eq_world (content eq_left)). k \<notin> set excluded_keys \<longrightarrow>
         (map_of (heap eq_world (content eq_right)) k = None \<or>
          (\<exists>ov. map_of (heap eq_world (content eq_right)) k = Some ov \<and> lower (str v) = lower (str ov)))"
    by (simp add: eq_world_def eq_left_def eq_right_def world_of_def excluded_keys_def low)
  from Document_eq_contract[of eq_left eq_right eq_world eq_right] agree
  have t1: "fst (Document_eq eq_left (EDoc eq_right) eq_world)"
    and "out (snd (Document_eq eq_left (EDoc eq_right) eq_world)) =
          out eq_world @ absent_warnings (heap eq_world (content eq_left))
            (heap eq_world (content eq_right)) (id_str eq_right)"
    by blast+
  then have t2: "out (snd (Document_eq eq_left (EDoc eq_right) eq_world)) = [KeyNotIn ''b'' ''2'']"
    by (simp add: eq_world_def eq_left_def eq_right_def world_of_def absent_warnings_def
        compared_def excluded_keys_def)
  have differ: "lower (str (VInt 2)) \<noteq> lower (str (VInt 3))" by code_simp
  have "\<not> (\<forall>(k, v) \<in> set (heap neq_world (content neq_left)). k \<notin> set excluded_keys \<longrightarrow>
         (map_of (heap neq_world (content neq_right)) k = None \<or>
          (\<exists>ov. map_of (heap neq_world (content neq_right)) k = Some ov \<and> lower (str v) = lower (str ov))))"
    using differ by (simp add: neq_world_def neq_left_def neq_right_def world_of_def excluded_keys_def)
  with Document_eq_contract[of neq_left neq_right neq_world neq_right]
  have f1: "\<not> fst (Document_eq neq_left (EDoc neq_right) neq_world)"
    by blast
  have pr: "eq_printed (heap neq_world (content neq_left)) (id_str neq_left)
              (heap neq_world (content neq_right)) (id_str neq_right) =
            [KeyNotIn ''a'' ''r'', KeyDiffers ''b'' ''l'' (VInt 2) ''r'' (VInt 3)]"
    by code_simp
  from Document_eq_contract[of neq_left neq_right neq_world neq_right]
  have "snd (Document_eq neq_left (EDoc neq_right) neq_world) =
        neq_world\<lparr>out := out neq_world @ eq_printed (heap neq_world (content neq_left)) (id_str neq_left)
              (heap neq_world (content neq_right)) (id_str neq_right)\<rparr>"
    by blast
  then have "out (snd (Document_eq neq_left (EDoc neq_right) neq_world)) =
       out neq_world @ [KeyNotIn ''a'' ''r'', KeyDiffers ''b'' ''l'' (VInt 2) ''r'' (VInt 3)]"
    by (simp only: pr) simp
  moreover have "out neq_world = []"
    by (simp add: neq_world_def world_of_def)
  ultimately have f2: "out (snd (Document_eq neq_left (EDoc neq_right) neq_world)) =
       [KeyNotIn ''a'' ''r'', KeyDiffers ''b'' ''l'' (VInt 2) ''r'' (VInt 3)]"
    by simp
  from t1 t2 f1 f2 show ?thesis by simp
qed

section \<open>\<open>Collection.__add__\<close>\<close>

lemma id_values_docs:
  "list_all is_doc es \<Longrightarrow>
     id_values es w = Inr (map (\<lambda>d. dict_get (heap w (content d)) ''_id'') (docs_in es))"
  by (induction es rule: docs_in.induct) (simp_all add: is_doc_def)

text \<open>
  What \<open>A + B\<close> does for two collections of documents, at least one of them not empty:
  it raises the conflict error exactly when the lists of \<open>content.get('_id')\<close> of the two
  meet, where a record without the field counts with the value \<open>None\<close>, and otherwise
  returns the collection named \<open>A.name + '_and_' + B.name\<close> whose documents are those of
  \<open>A\<close> followed by those of \<open>B\<close>, and changes nothing.
\<close>

lemma add_conflict_or_concat:
  assumes "only_documents A" and "only_documents B"
    and "documents A \<noteq> [] \<or> documents B \<noteq> []"
  shows "add A (ACollection B) w =
     (if set (get_ids A w) \<inter> set (get_ids B w) \<noteq> {}
      then Inl (ValueError (ConflictingIds (set (get_ids A w) \<inter> set (get_ids B w))))
      else Inr (\<lparr>name = name A @ ''_and_'' @ name B, skip_values = [],
                 documents = documents A @ documents B\<rparr>, w))"
proof -
  have a: "id_values (documents A) w = Inr (get_ids A w)"
    using assms(1) by (simp add: only_documents_def get_ids_def id_values_docs)
  have b: "id_values (documents B) w = Inr (get_ids B w)"
    using assms(2) by (simp add: only_documents_def get_ids_def id_values_docs)
  have all: "list_all is_doc (documents A @ documents B)"
    using assms(1,2) by (simp add: only_documents_def)
  have ne: "documents A @ documents B \<noteq> []"
    using assms(3) by simp
  show ?thesis
    by (simp add: add_def a b Let_def Collection_init_docs[OF all ne])
qed

lemma add_distinct_identifiers:
  "add coll_a (ACollection coll_b) two_world =
     Inr (\<lparr>name = ''a_and_b'', skip_values = [],
           documents = [EDoc \<lparr>content = 0, id_str = ''1''\<rparr>, EDoc \<lparr>content = 1, id_str = ''2''\<rparr>]\<rparr>,
          two_world)"
  using add_conflict_or_concat[of coll_a coll_b two_world]
  by (simp add: only_documents_def is_doc_def coll_a_def coll_b_def get_ids_def two_world_def
      world_of_def dict_get_def)

lemma ids_present:
  "\<forall>d \<in> set ds. has_key ''_id'' (heap w (content d)) \<Longrightarrow>
     List.map_filter (\<lambda>d. map_of (heap w (content d)) ''_id'') ds =
     map (\<lambda>d. dict_get (heap w (content d)) ''_id'') ds"
  by (induction ds) (auto simp: List.map_filter_simps has_key_def dict_get_def)

text \<open>
  Where every record has the field \<open>_id\<close> and the two collections are not both empty, the
  sum raises the conflict error exactly when the two share an identifier, and is the
  concatenation otherwise.
\<close>

lemma add_when_ids_present:
  assumes "only_documents A" and "only_documents B"
    and "documents A \<noteq> [] \<or> documents B \<noteq> []"
    and "\<forall>d \<in> set (docs_in (documents A)) \<union> set (docs_in (documents B)).
           has_key ''_id'' (heap w (content d))"
  shows "add A (ACollection B) w =
     (if share_identifier A B w
      then Inl (ValueError (ConflictingIds (set (field_ids A w) \<inter> set (field_ids B w))))
      else Inr (\<lparr>name = name A @ ''_and_'' @ name B, skip_values = [],
                 documents = documents A @ documents B\<rparr>, w))"
proof -
  from assms(4) have a: "field_ids A w = get_ids A w" and b: "field_ids B w = get_ids B w"
    by (simp_all add: field_ids_def get_ids_def ids_present)
  show ?thesis
    using add_conflict_or_concat[OF assms(1,2,3), of w]
    by (simp add: share_identifier_def a b)
qed

text \<open>
  Claim C6. Two empty collections share no identifier, and their sum does not return:
  the constructor of the result reads \<open>docs[0]\<close> of the empty list and raises
  \<open>IndexError\<close>. Two collections keyed by \<open>name\<close>, whose records have no \<open>_id\<close>, share
  no identifier either, and their sum raises the conflict error, for the value \<open>None\<close>
  that \<open>content.get('_id')\<close> gives for each of them.
\<close>

theorem add_fails_without_shared_identifier:
  "add empty_a (ACollection empty_b) (world_of []) = Inl IndexError
   \<and> \<not> share_identifier empty_a empty_b (world_of [])
   \<and> add no_id_a (ACollection no_id_b) no_id_world = Inl (ValueError (ConflictingIds {VNone}))
   \<and> \<not> share_identifier no_id_a no_id_b no_id_world"
  by (simp add: add_def empty_a_def empty_b_def Collection_init_def
      no_id_a_def no_id_b_def no_id_world_def world_of_def dict_get_def
      share_identifier_def field_ids_def List.map_filter_simps)

section \<open>\<open>Collection.__contains__\<close>\<close>

lemma is_not_in_simps [simp]:
  "is_not_in (DocumentNotIn i n)" "\<not> is_not_in (KeyNotIn k oid)"
  "\<not> is_not_in (KeyDiffers k sid v oid ov)" "\<not> is_not_in (NotADocument e)"
  "\<not> is_not_in (ColumnNotFound c i)"
  by (simp_all add: is_not_in_def)

lemma eq_loop_files: "files (snd (eq_loop d sid oc oid w)) = files w"
  by (induction d arbitrary: w) (auto split: option.splits)

lemma eq_loop_not_in:
  "filter is_not_in (out (snd (eq_loop d sid oc oid w))) = filter is_not_in (out w)"
  by (induction d arbitrary: w) (auto split: option.splits)

lemma matching_docs:
  "list_all is_doc es \<Longrightarrow> matching i es = Inr (filter (\<lambda>d2. i = id_str d2) (docs_in es))"
  by (induction es rule: docs_in.induct) (simp_all add: is_doc_def)

lemma found_equal_heap: "heap w1 = heap w \<Longrightarrow> found_equal a w1 d = found_equal a w d"
  by (simp add: found_equal_def Document_eq_def eq_loop_fst split: list.splits)

lemma singleton_eq_facts:
  "fst (singleton_eq d (same_id_docs (id_str d) a) w) = found_equal a w d"
  "heap (snd (singleton_eq d ms w)) = heap w"
  "files (snd (singleton_eq d ms w)) = files w"
  "filter is_not_in (out (snd (singleton_eq d ms w))) = filter is_not_in (out w)"
  by (auto simp: singleton_eq_def found_equal_def Document_eq_def eq_loop_heap eq_loop_files
      eq_loop_not_in split: list.splits)

lemma contains_loop_run:
  assumes "only_documents a"
  shows "list_all is_doc es \<Longrightarrow> heap w = heap w0 \<Longrightarrow>
    \<exists>w'. contains_loop a b es acc w = Inr (acc @ map content (failing a b w0 es), w')
       \<and> heap w' = heap w0 \<and> files w' = files w
       \<and> filter is_not_in (out w') =
           filter is_not_in (out w) @ map (\<lambda>d. DocumentNotIn (id_str d) (name b)) (failing a b w0 es)"
proof (induction es arbitrary: acc w)
  case Nil
  then show ?case by (simp add: failing_def audited_def)
next
  case (Cons e es)
  from Cons.prems(1) have ie: "is_doc e" and rest: "list_all is_doc es"
    by simp_all
  from ie obtain d where e: "e = EDoc d"
    by (cases e) (simp_all add: is_doc_def)
  have m: "matching (id_str d) (documents a) = Inr (same_id_docs (id_str d) a)"
    using assms by (simp add: only_documents_def matching_docs same_id_docs_def)
  show ?case
  proof (cases "skipped (skip_values b) (heap w0 (content d))")
    case True
    with Cons.IH[OF rest Cons.prems(2), of acc] e Cons.prems(2) show ?thesis
      by (simp add: failing_def audited_def)
  next
    case False
    obtain r w1 where s: "singleton_eq d (same_id_docs (id_str d) a) w = (r, w1)"
      by (cases "singleton_eq d (same_id_docs (id_str d) a) w")
    have r: "r = found_equal a w0 d"
      using singleton_eq_facts(1)[of d a w] s found_equal_heap[OF Cons.prems(2)] by simp
    have h1: "heap w1 = heap w0" and f1: "files w1 = files w"
      and o1: "filter is_not_in (out w1) = filter is_not_in (out w)"
      using singleton_eq_facts(2,3,4)[of d "same_id_docs (id_str d) a" w] s Cons.prems(2) by simp_all
    show ?thesis
    proof (cases r)
      case True
      from Cons.IH[OF rest h1, of acc] obtain w' where
        "contains_loop a b es acc w1 = Inr (acc @ map content (failing a b w0 es), w')"
        "heap w' = heap w0" "files w' = files w1"
        "filter is_not_in (out w') =
           filter is_not_in (out w1) @ map (\<lambda>d. DocumentNotIn (id_str d) (name b)) (failing a b w0 es)"
        by blast
      with True r False e m s f1 o1 Cons.prems(2) show ?thesis
        by (simp add: failing_def audited_def)
    next
      case F: False
      let ?w2 = "print (DocumentNotIn (id_str d) (name b)) w1"
      have h2: "heap ?w2 = heap w0" using h1 by simp
      from Cons.IH[OF rest h2, of "acc @ [content d]"] obtain w' where
        "contains_loop a b es (acc @ [content d]) ?w2 =
           Inr ((acc @ [content d]) @ map content (failing a b w0 es), w')"
        "heap w' = heap w0" "files w' = files ?w2"
        "filter is_not_in (out w') =
           filter is_not_in (out ?w2) @ map (\<lambda>d. DocumentNotIn (id_str d) (name b)) (failing a b w0 es)"
        by blast
      with F r False e m s f1 o1 Cons.prems(2) show ?thesis
        by (simp add: failing_def audited_def)
    qed
  qed
qed

lemma stringify_idem: "stringify (stringify d) = stringify d"
  by (induction d) (auto simp: stringify_def)

lemma stringify_all_heap:
  "heap (stringify_all rs w) r = (if r \<in> set rs then stringify (heap w r) else heap w r)"
  by (induction rs arbitrary: w) (auto simp: store_def stringify_idem)

lemma stringify_all_other:
  "files (stringify_all rs w) = files w" "out (stringify_all rs w) = out w"
  by (induction rs arbitrary: w) (auto simp: store_def)

lemma found_equal_iff:
  "found_equal a w d \<longleftrightarrow> (\<exists>d2. same_id_docs (id_str d) a = [d2] \<and> fst (Document_eq d (EDoc d2) w))"
  by (auto simp: found_equal_def split: list.splits)

text \<open>
  What \<open>B in A\<close> does for collections \<open>A\<close> and \<open>B\<close> of documents: it returns, and
  it returns \<open>True\<close> exactly when every record of \<open>B\<close> that the skip-value rules of
  \<open>B\<close> do not exclude has exactly one record of \<open>A\<close> with its identity and is equal to
  that record (the record of \<open>B\<close> on the left of \<open>__eq__\<close>). One line is printed for
  each failing record, in order, and when some record fails the file \<open>not_in.json\<close>
  receives the stringified contents of the failing records.
\<close>

lemma contains_audit:
  assumes "only_documents A" and "only_documents B"
  shows "\<exists>b w'. contains A B w = Inr (b, w')
     \<and> (b \<longleftrightarrow> (\<forall>d \<in> set (docs_in (documents B)).
            \<not> skipped (skip_values B) (heap w (content d)) \<longrightarrow>
            (\<exists>d2. same_id_docs (id_str d) A = [d2] \<and> fst (Document_eq d (EDoc d2) w))))
     \<and> (b \<longleftrightarrow> failing A B w (documents B) = [])
     \<and> filter is_not_in (out w') =
         filter is_not_in (out w) @
         map (\<lambda>d. DocumentNotIn (id_str d) (name B)) (failing A B w (documents B))
     \<and> (\<forall>r. heap w' r =
           (if r \<in> content ` set (failing A B w (documents B)) then stringify (heap w r)
            else heap w r))
     \<and> files w' =
         (if b then files w
          else (files w)(''not_in.json'' \<mapsto>
                 map (\<lambda>d. stringify (heap w (content d))) (failing A B w (documents B))))"
proof -
  let ?F = "failing A B w (documents B)"
  from contains_loop_run[OF assms(1), of "documents B" w w B "[]"] assms(2)
  obtain w1 where run: "contains_loop A B (documents B) [] w = Inr (map content ?F, w1)"
    and h1: "heap w1 = heap w" and f1: "files w1 = files w"
    and o1: "filter is_not_in (out w1) =
             filter is_not_in (out w) @ map (\<lambda>d. DocumentNotIn (id_str d) (name B)) ?F"
    by (auto simp: only_documents_def)
  have iff: "?F = [] \<longleftrightarrow> (\<forall>d \<in> set (docs_in (documents B)).
            \<not> skipped (skip_values B) (heap w (content d)) \<longrightarrow>
            (\<exists>d2. same_id_docs (id_str d) A = [d2] \<and> fst (Document_eq d (EDoc d2) w)))"
    by (auto simp: failing_def audited_def filter_empty_conv found_equal_iff)
  show ?thesis
  proof (cases "?F = []")
    case True
    with run have "contains A B w = Inr (True, w1)"
      by (simp add: contains_def)
    with True iff h1 f1 o1 have "contains A B w = Inr (True, w1)
     \<and> (True \<longleftrightarrow> (\<forall>d \<in> set (docs_in (documents B)).
            \<not> skipped (skip_values B) (heap w (content d)) \<longrightarrow>
            (\<exists>d2. same_id_docs (id_str d) A = [d2] \<and> fst (Document_eq d (EDoc d2) w))))
     \<and> (True \<longleftrightarrow> ?F = [])
     \<and> filter is_not_in (out w1) =
         filter is_not_in (out w) @ map (\<lambda>d. DocumentNotIn (id_str d) (name B)) ?F
     \<and> (\<forall>r. heap w1 r = (if r \<in> content ` set ?F then stringify (heap w r) else heap w r))
     \<and> files w1 =
         (if True then files w
          else (files w)(''not_in.json'' \<mapsto> map (\<lambda>d. stringify (heap w (content d))) ?F))"
      by simp
    then show ?thesis by blast
  next
    case False
    define w2 where "w2 = stringify_all (map content ?F) w1"
    define w3 where "w3 = w2\<lparr>files := (files w2)(''not_in.json'' \<mapsto> map (heap w2) (map content ?F))\<rparr>"
    from False run have c: "contains A B w = Inr (False, w3)"
      by (simp add: contains_def Let_def w3_def w2_def)
    have hp: "\<forall>r. heap w3 r = (if r \<in> content ` set ?F then stringify (heap w r) else heap w r)"
      by (simp add: w3_def w2_def stringify_all_heap h1)
    have mp: "map (heap w2) (map content ?F) = map (\<lambda>d. stringify (heap w (content d))) ?F"
      by (simp add: w2_def stringify_all_heap h1)
    have fl: "files w3 = (files w)(''not_in.json'' \<mapsto> map (\<lambda>d. stringify (heap w (content d))) ?F)"
      unfolding w3_def mp by (simp add: w2_def stringify_all_other f1)
    have ou: "filter is_not_in (out w3) =
             filter is_not_in (out w) @ map (\<lambda>d. DocumentNotIn (id_str d) (name B)) ?F"
      by (simp add: w3_def w2_def stringify_all_other o1)
    have "contains A B w = Inr (False, w3)
     \<and> (False \<longleftrightarrow> (\<forall>d \<in> set (docs_in (documents B)).
            \<not> skipped (skip_values B) (heap w (content d)) \<longrightarrow>
            (\<exists>d2. same_id_docs (id_str d) A = [d2] \<and> fst (Document_eq d (EDoc d2) w))))
     \<and> (False \<longleftrightarrow> ?F = [])
     \<and> filter is_not_in (out w3) =
         filter is_not_in (out w) @ map (\<lambda>d. DocumentNotIn (id_str d) (name B)) ?F
     \<and> (\<forall>r. heap w3 r = (if r \<in> content ` set ?F then stringify (heap w r) else heap w r))
     \<and> files w3 =
         (if False then files w
          else (files w)(''not_in.json'' \<mapsto> map (\<lambda>d. stringify (heap w (content d))) ?F))"
      using c hp fl ou False iff by simp
    then show ?thesis by blast
  qed
qed

text \<open>
  At the two collections above: \<open>b in a\<close> is \<open>True\<close> (one record of \<open>b\<close>
  matches up to case, the other is skipped), and \<open>a in b\<close> is \<open>False\<close> and writes the
  record with the identity \<open>2\<close> to the file.
\<close>

lemma contains_audit_example:
  "map_sum id fst (contains audit_a audit_b audit_world) = Inr True
   \<and> map_sum id (\<lambda>(b, w'). (b, files w' ''not_in.json'')) (contains audit_b audit_a audit_world)
       = Inr (False, Some [[(''_id'', VStr ''2''), (''name'', VStr ''y''), (''status'', VStr ''done'')]])"
proof -
  have da: "only_documents audit_a" and db: "only_documents audit_b"
    by (simp_all add: only_documents_def audit_a_def audit_b_def is_doc_def)
  have none: "failing audit_a audit_b audit_world (documents audit_b) = []"
    by code_simp
  have one: "failing audit_b audit_a audit_world (documents audit_a) = [\<lparr>content = 1, id_str = ''2''\<rparr>]"
    by code_simp
  have h: "heap audit_world (Suc 0) = [(''_id'', VStr ''2''), (''name'', VStr ''y''), (''status'', VStr ''done'')]"
    by (simp add: audit_world_def world_of_def)
  from contains_audit[OF da db, of audit_world]
  obtain b1 w1 where c1: "contains audit_a audit_b audit_world = Inr (b1, w1)"
    and b1: "b1 \<longleftrightarrow> failing audit_a audit_b audit_world (documents audit_b) = []"
    by blast
  from c1 b1 none have 1: "map_sum id fst (contains audit_a audit_b audit_world) = Inr True"
    by simp
  from contains_audit[OF db da, of audit_world]
  obtain b2 w2 where c2: "contains audit_b audit_a audit_world = Inr (b2, w2)"
    and b2: "b2 \<longleftrightarrow> failing audit_b audit_a audit_world (documents audit_a) = []"
    and f2: "files w2 =
         (if b2 then files audit_world
          else (files audit_world)(''not_in.json'' \<mapsto>
                 map (\<lambda>d. stringify (heap audit_world (content d)))
                   (failing audit_b audit_a audit_world (documents audit_a))))"
    by blast
  from b2 one have nb: "\<not> b2" by simp
  from c2 nb f2 have 2: "map_sum id (\<lambda>(b, w'). (b, files w' ''not_in.json'')) (contains audit_b audit_a audit_world)
       = Inr (False, Some [[(''_id'', VStr ''2''), (''name'', VStr ''y''), (''status'', VStr ''done'')]])"
    by (simp add: one h stringify_def)
  from 1 2 show ?thesis by simp
qed

lemma filter_same_key_single:
  "distinct (map f xs) \<Longrightarrow> y \<in> set xs \<Longrightarrow> filter (\<lambda>x. f y = f x) xs = [y]"
proof (induction xs)
  case Nil
  then show ?case by simp
next
  case (Cons x xs)
  from Cons.prems(1) have nx: "f x \<notin> f ` set xs" and dx: "distinct (map f xs)" by simp_all
  show ?case
  proof (cases "y = x")
    case True
    have "filter (\<lambda>z. f x = f z) xs = []"
      unfolding filter_empty_conv using nx by (metis imageI)
    with True show ?thesis by simp
  next
    case False
    with Cons.prems(2) have in_xs: "y \<in> set xs" by simp
    with nx have "f y \<noteq> f x" by (metis imageI)
    with Cons.IH[OF dx in_xs] show ?thesis by simp
  qed
qed

lemma same_id_single:
  "distinct (map id_str ds) \<Longrightarrow> d2 \<in> set ds \<Longrightarrow> filter (\<lambda>x. id_str d2 = id_str x) ds = [d2]"
  by (rule filter_same_key_single)

lemma found_equal_distinct:
  assumes "distinct (map id_str (docs_in (documents a)))"
  shows "found_equal a w d = has_equal_record a w d"
proof
  assume "found_equal a w d"
  then obtain d2 where s: "same_id_docs (id_str d) a = [d2]" and e: "fst (Document_eq d (EDoc d2) w)"
    by (auto simp: found_equal_iff)
  from s have "d2 \<in> set (filter (\<lambda>x. id_str d = id_str x) (docs_in (documents a)))"
    by (simp add: same_id_docs_def)
  then have "d2 \<in> set (docs_in (documents a))" and "id_str d2 = id_str d" by simp_all
  with e show "has_equal_record a w d"
    by (auto simp: has_equal_record_def list_ex_iff)
next
  assume "has_equal_record a w d"
  then obtain d2 where m: "d2 \<in> set (docs_in (documents a))" and i: "id_str d2 = id_str d"
    and e: "fst (Document_eq d (EDoc d2) w)"
    by (auto simp: has_equal_record_def list_ex_iff)
  from same_id_single[OF assms m] i have "same_id_docs (id_str d) a = [d2]"
    by (simp add: same_id_docs_def)
  with e show "found_equal a w d" by (auto simp: found_equal_iff)
qed

text \<open>
  Where the identities of \<open>A\<close> are pairwise distinct, \<open>B in A\<close> is \<open>True\<close> exactly when
  every record of \<open>B\<close> that is not excluded has an identity-equal, equal record in \<open>A\<close>.
\<close>

lemma contains_when_identities_distinct:
  assumes "only_documents A" and "only_documents B"
    and "distinct (map id_str (docs_in (documents A)))"
  shows "map_sum id fst (contains A B w) = Inr (contains_all_spec A B w)"
proof -
  from contains_audit[OF assms(1,2), of w]
  obtain b w' where c: "contains A B w = Inr (b, w')"
    and b: "b \<longleftrightarrow> failing A B w (documents B) = []"
    by blast
  have "failing A B w (documents B) = [] \<longleftrightarrow> contains_all_spec A B w"
    by (simp add: failing_def contains_all_spec_def filter_empty_conv list_all_iff
        found_equal_distinct[OF assms(3)])
  with c b show ?thesis by simp
qed

text \<open>
  Claim C1. \<open>A\<close> holds two records with the identity \<open>1\<close>, both equal to the one
  record of \<open>B\<close>, so every record of \<open>B\<close> has an identity-equal, equal record in \<open>A\<close>.
  \<open>B in A\<close> returns \<open>False\<close> all the same, prints that the record is not in the
  collection and writes it to \<open>not_in.json\<close>: the one-element list \<open>[doc]\<close> is compared
  with the list of both matches.
\<close>

theorem contains_duplicate_identity:
  "map_sum id (\<lambda>(b, w'). (b, out w', files w' ''not_in.json'')) (contains dup_a dup_b dup_world)
     = Inr (False, [DocumentNotIn ''1'' ''b''],
            Some [[(''_id'', VStr ''1''), (''name'', VStr ''x'')]])
   \<and> contains_all_spec dup_a dup_b dup_world"
  by code_simp

section \<open>Normalization and \<open>Collection.__getitem__\<close>\<close>

lemma normalize_value_eq:
  "normalize_value v = (if line_feed_id v then Inl InvalidId else Inr (normalized_value v))"
  by (auto simp: normalize_value_def line_feed_id_def normalized_value_def ObjectId_def
      split: pyval.splits)

lemma normalize_identifiers_eq:
  "normalize_identifiers d = (if normalizable d then Inr (normalized d) else Inl InvalidId)"
  by (induction d) (auto simp: normalize_value_eq normalizable_def normalized_def)

lemma normalized_value_idem:
  "\<not> line_feed_id (normalized_value v)" "normalized_value (normalized_value v) = normalized_value v"
  by (auto simp: normalized_value_def line_feed_id_def split: pyval.splits)

lemma normalized_idem: "normalizable (normalized d)" "normalized (normalized d) = normalized d"
  by (simp_all add: normalizable_def normalized_def list_all_iff normalized_value_idem)

lemma normalize_identifiers_idem:
  "normalize_identifiers d = Inr d' \<Longrightarrow> normalize_identifiers d' = Inr d'"
  by (auto simp: normalize_identifiers_eq normalized_idem split: if_splits)

lemma keys_normalized [simp]: "keys (normalized d) = keys d"
  by (simp add: keys_def normalized_def comp_def)

lemma map_of_normalized: "map_of (normalized d) k = map_option normalized_value (map_of d k)"
  by (induction d) (auto simp: normalized_def)

lemma map_of_dict_set: "map_of (dict_set d k v) = (map_of d)(k \<mapsto> v)"
  by (induction d) (auto simp: fun_eq_iff)

lemma keys_dict_set_list:
  "keys (dict_set d k v) = (if k \<in> set (keys d) then keys d else keys d @ [k])"
  by (induction d) (force simp: keys_def)+

lemma keys_dict_set: "set (keys (dict_set d k v)) = insert k (set (keys d))"
  by (auto simp: keys_dict_set_list)

lemma set_dict_set: "set (dict_set d k v) \<subseteq> insert (k, v) (set d)"
  by (induction d) (auto split: if_splits)

lemma normalizable_dict_set:
  "normalizable d \<Longrightarrow> \<not> line_feed_id v \<Longrightarrow> normalizable (dict_set d k v)"
  using set_dict_set[of d k v] by (auto simp: normalizable_def list_all_iff)

lemma has_key_keys: "has_key k d \<longleftrightarrow> k \<in> set (keys d)"
  by (simp add: has_key_def keys_def map_of_eq_None_iff)

lemma dict_get_in: "has_key k d \<Longrightarrow> (k, dict_get d k) \<in> set d"
  by (auto simp: has_key_def dict_get_def dest: map_of_SomeD)

lemma slice_fold_map_of:
  "map_of (foldl (\<lambda>d f. dict_set d f (dict_get c f)) acc ks) k =
     (if k \<in> set ks then Some (dict_get c k) else map_of acc k)"
  by (induction ks arbitrary: acc) (auto simp: map_of_dict_set)

lemma slice_fold_keys:
  "set (keys (foldl (\<lambda>d f. dict_set d f (dict_get c f)) acc ks)) = set (keys acc) \<union> set ks"
  by (induction ks arbitrary: acc) (auto simp: keys_dict_set)

lemma slice_fold_normalizable:
  "normalizable c \<Longrightarrow> normalizable acc \<Longrightarrow> \<forall>k \<in> set ks. has_key k c \<Longrightarrow>
     normalizable (foldl (\<lambda>d f. dict_set d f (dict_get c f)) acc ks)"
proof (induction ks arbitrary: acc)
  case Nil
  then show ?case by simp
next
  case (Cons k ks)
  from Cons.prems have "(k, dict_get c k) \<in> set c" by (simp add: dict_get_in)
  with Cons.prems(1) have "\<not> line_feed_id (dict_get c k)"
    by (auto simp: normalizable_def list_all_iff)
  with Cons show ?case by (simp add: normalizable_dict_set)
qed

lemma slice_dict_keys: "set (keys (slice_dict fs c)) = set fs \<inter> set (keys c)"
  unfolding slice_dict_def slice_fold_keys by (auto simp: has_key_keys keys_def)

lemma slice_dict_map_of:
  "map_of (slice_dict fs c) k = (if k \<in> set fs then map_of c k else None)"
  unfolding slice_dict_def slice_fold_map_of by (auto simp: has_key_def dict_get_def)

lemma slice_dict_normalizable: "normalizable c \<Longrightarrow> normalizable (slice_dict fs c)"
  unfolding slice_dict_def by (rule slice_fold_normalizable) (simp_all add: normalizable_def)

lemma keys_with_id: "set (keys (with_id c n)) = insert ''_id'' (set (keys c))"
  by (auto simp: with_id_def keys_dict_set has_key_keys)

lemma map_of_with_id: "k \<in> set (keys c) \<Longrightarrow> map_of (with_id c n) k = map_of c k"
  by (auto simp: with_id_def map_of_dict_set has_key_keys)

lemma map_of_with_id_new:
  "''_id'' \<notin> set (keys c) \<Longrightarrow> map_of (with_id c n) ''_id'' = Some (VOid (hex_digits 24 n))"
  by (simp add: with_id_def map_of_dict_set has_key_keys)

lemma normalizable_with_id: "normalizable c \<Longrightarrow> normalizable (with_id c n)"
  by (simp add: with_id_def normalizable_dict_set line_feed_id_def)

lemma length_docs_in: "list_all is_doc es \<Longrightarrow> length (docs_in es) = length es"
  by (induction es rule: docs_in.induct) (simp_all add: is_doc_def)

lemma Document_init_id:
  assumes "normalizable (heap w r)"
  shows "\<exists>i w'. Document_init r [''_id''] w = Inr (\<lparr>content = r, id_str = i\<rparr>, w')
     \<and> heap w' = (heap w)(r := normalized (with_id (heap w r) (minted w)))
     \<and> next_ref w' = next_ref w"
proof (cases "map_of (heap w r) ''_id''")
  case None
  then have wi: "with_id (heap w r) (minted w) = dict_set (heap w r) ''_id'' (VOid (hex_digits 24 (minted w)))"
    by (simp add: with_id_def has_key_def)
  from assms have "normalizable (with_id (heap w r) (minted w))"
    by (rule normalizable_with_id)
  with None wi show ?thesis
    by (simp add: Document_init_def derive_id_def new_ObjectId_def store_def
        normalize_identifiers_eq)
next
  case (Some v)
  then have wi: "with_id (heap w r) (minted w) = heap w r"
    by (simp add: with_id_def has_key_def)
  with Some assms show ?thesis
    by (simp add: Document_init_def derive_id_def store_def normalize_identifiers_eq)
qed

lemma build_documents_run:
  "distinct rs \<Longrightarrow> \<forall>r \<in> set rs. normalizable (heap w r) \<Longrightarrow>
   \<exists>ds w'. build_documents (map EDict rs) [''_id''] w = Inr (map EDoc ds, w')
     \<and> map content ds = rs
     \<and> (\<forall>r. r \<notin> set rs \<longrightarrow> heap w' r = heap w r)
     \<and> (\<forall>r \<in> set rs. \<exists>n. heap w' r = normalized (with_id (heap w r) n))
     \<and> next_ref w' = next_ref w"
proof (induction rs arbitrary: w)
  case Nil
  then show ?case by simp
next
  case (Cons r rs)
  from Cons.prems(2) have "normalizable (heap w r)" by simp
  from Document_init_id[OF this] obtain i w1 where
    di: "Document_init r [''_id''] w = Inr (\<lparr>content = r, id_str = i\<rparr>, w1)"
    and h1: "heap w1 = (heap w)(r := normalized (with_id (heap w r) (minted w)))"
    and n1: "next_ref w1 = next_ref w"
    by blast
  from Cons.prems have d: "distinct rs" and nr: "r \<notin> set rs" by simp_all
  from Cons.prems(2) nr h1 have "\<forall>r' \<in> set rs. normalizable (heap w1 r')" by auto
  from Cons.IH[OF d this] obtain ds w' where
    bd: "build_documents (map EDict rs) [''_id''] w1 = Inr (map EDoc ds, w')"
    and cs: "map content ds = rs"
    and others: "\<forall>r'. r' \<notin> set rs \<longrightarrow> heap w' r' = heap w1 r'"
    and mine: "\<forall>r' \<in> set rs. \<exists>n. heap w' r' = normalized (with_id (heap w1 r') n)"
    and n2: "next_ref w' = next_ref w1"
    by blast
  have a1: "build_documents (map EDict (r # rs)) [''_id''] w =
          Inr (map EDoc (\<lparr>content = r, id_str = i\<rparr> # ds), w')"
    using di bd by simp
  have a2: "map content (\<lparr>content = r, id_str = i\<rparr> # ds) = r # rs"
    using cs by simp
  have a3: "\<forall>r'. r' \<notin> set (r # rs) \<longrightarrow> heap w' r' = heap w r'"
    using others h1 by simp
  have a4: "\<forall>r' \<in> set (r # rs). \<exists>n. heap w' r' = normalized (with_id (heap w r') n)"
  proof
    fix r' assume "r' \<in> set (r # rs)"
    then consider "r' = r" | "r' \<in> set rs" by auto
    then show "\<exists>n. heap w' r' = normalized (with_id (heap w r') n)"
    proof cases
      case 1
      with others nr h1 show ?thesis by auto
    next
      case 2
      with nr have "r' \<noteq> r" by auto
      with h1 have same: "heap w1 r' = heap w r'" by simp
      from mine 2 obtain n where "heap w' r' = normalized (with_id (heap w1 r') n)" by blast
      then have "heap w' r' = normalized (with_id (heap w r') n)" by (simp only: same)
      then show ?thesis by blast
    qed
  qed
  have a5: "next_ref w' = next_ref w" using n1 n2 by simp
  show ?case
    by (rule exI[of _ "\<lparr>content = r, id_str = i\<rparr> # ds"], rule exI[of _ w'], intro conjI)
       (fact a1, fact a2, fact a3, fact a4, fact a5)
qed

lemma slice_documents_run:
  "list_all is_doc es \<Longrightarrow> \<forall>d \<in> set (docs_in es). content d < next_ref w \<Longrightarrow>
   \<exists>w'. slice_documents fs es w = Inr (map EDict [next_ref w ..< next_ref w + length es], w')
     \<and> (\<forall>r < next_ref w. heap w' r = heap w r)
     \<and> (\<forall>i < length es. heap w' (next_ref w + i) = slice_dict fs (heap w (content (docs_in es ! i))))"
proof (induction es arbitrary: w)
  case Nil
  then show ?case by simp
next
  case (Cons e es)
  from Cons.prems(1) have ie: "is_doc e" and rest: "list_all is_doc es"
    by simp_all
  from ie obtain d where e: "e = EDoc d"
    by (cases e) (simp_all add: is_doc_def)
  let ?n = "next_ref w"
  let ?c = "slice_dict fs (heap w (content d))"
  define w1 where "w1 = w\<lparr>heap := (heap w)(?n := ?c), next_ref := Suc ?n\<rparr>"
  have a: "alloc ?c w = (?n, w1)" by (simp add: alloc_def w1_def)
  have n1: "next_ref w1 = Suc ?n" and h1: "heap w1 = (heap w)(?n := ?c)"
    by (simp_all add: w1_def)
  from Cons.prems(2) e n1 have "\<forall>d \<in> set (docs_in es). content d < next_ref w1" by auto
  from Cons.IH[OF rest this] obtain w' where
    sd: "slice_documents fs es w1 = Inr (map EDict [next_ref w1 ..< next_ref w1 + length es], w')"
    and low: "\<forall>r < next_ref w1. heap w' r = heap w1 r"
    and new: "\<forall>i < length es. heap w' (next_ref w1 + i) = slice_dict fs (heap w1 (content (docs_in es ! i)))"
    by blast
  have u: "[?n ..< ?n + length (e # es)] = ?n # [Suc ?n ..< Suc ?n + length es]"
    by (simp add: upt_conv_Cons del: upt_Suc)
  have b1: "slice_documents fs (e # es) w = Inr (map EDict [?n ..< ?n + length (e # es)], w')"
    unfolding u using e a sd[unfolded n1] by simp
  have b2: "\<forall>r < ?n. heap w' r = heap w r"
    using low n1 h1 by simp
  have b3: "\<forall>i < length (e # es). heap w' (?n + i) = slice_dict fs (heap w (content (docs_in (e # es) ! i)))"
  proof (intro allI impI)
    fix i assume i: "i < length (e # es)"
    show "heap w' (?n + i) = slice_dict fs (heap w (content (docs_in (e # es) ! i)))"
    proof (cases i)
      case 0
      with low n1 h1 e show ?thesis by simp
    next
      case (Suc j)
      with i have j: "j < length es" by simp
      with rest have "docs_in es ! j \<in> set (docs_in es)" by (simp add: length_docs_in)
      with Cons.prems(2) e have "content (docs_in es ! j) < ?n" by simp
      with h1 have "heap w1 (content (docs_in es ! j)) = heap w (content (docs_in es ! j))" by simp
      with new j n1 Suc e show ?thesis by simp
    qed
  qed
  show ?case
    by (rule exI[of _ w'], intro conjI) (fact b1, fact b2, fact b3)
qed

lemma Collection_init_dicts:
  "rs \<noteq> [] \<Longrightarrow> build_documents (map EDict rs) ids w = Inr (ds, w1) \<Longrightarrow>
     Collection_init nm (SList (map EDict rs)) ids sv w =
       Inr (\<lparr>name = nm, skip_values = sv, documents = ds\<rparr>, w1)"
  by (cases rs) (simp_all add: Collection_init_def)

lemma docs_in_map_EDoc [simp]: "docs_in (map EDoc ds) = ds"
  by (induction ds) simp_all

lemma all_docs_map_EDoc [simp]: "list_all is_doc (map EDoc ds)"
  by (induction ds) (simp_all add: is_doc_def)

lemma projected_dict:
  assumes "c' = normalized (with_id (slice_dict fs c) n)"
  shows "set (keys c') = (set fs \<inter> set (keys c)) \<union> {''_id''}
     \<and> (\<forall>k \<in> set fs \<inter> set (keys c). map_of c' k = map_option normalized_value (map_of c k))
     \<and> (''_id'' \<notin> set fs \<inter> set (keys c) \<longrightarrow> (\<exists>n. map_of c' ''_id'' = Some (VOid (hex_digits 24 n))))"
proof (intro conjI ballI impI)
  show "set (keys c') = (set fs \<inter> set (keys c)) \<union> {''_id''}"
    by (simp add: assms keys_with_id slice_dict_keys)
  show "map_of c' k = map_option normalized_value (map_of c k)" if "k \<in> set fs \<inter> set (keys c)" for k
  proof -
    from that have "k \<in> set (keys (slice_dict fs c))" by (simp add: slice_dict_keys)
    then have "map_of (with_id (slice_dict fs c) n) k = map_of (slice_dict fs c) k"
      by (rule map_of_with_id)
    with that show ?thesis by (simp add: assms map_of_normalized slice_dict_map_of)
  qed
  show "\<exists>n. map_of c' ''_id'' = Some (VOid (hex_digits 24 n))" if "''_id'' \<notin> set fs \<inter> set (keys c)"
  proof -
    from that have "''_id'' \<notin> set (keys (slice_dict fs c))" by (simp add: slice_dict_keys)
    then have "map_of (with_id (slice_dict fs c) n) ''_id'' = Some (VOid (hex_digits 24 n))"
      by (rule map_of_with_id_new)
    then have "map_of c' ''_id'' = Some (VOid (hex_digits 24 n))"
      by (simp add: assms map_of_normalized normalized_value_def)
    then show ?thesis by blast
  qed
qed

text \<open>
  What \<open>A[fs]\<close> does for a list \<open>fs\<close> and a collection \<open>A\<close> of documents that is not
  empty, whose contents are allocated dicts on which normalization does not raise: it
  returns a collection with the name of \<open>A\<close> and one new document for each document of
  \<open>A\<close>, in order, and leaves every allocated dict as it was. The fields of each new
  record are the fields of \<open>fs\<close> that the original record has, together with the
  reserved field \<open>_id\<close>; each field taken over holds the original value, normalized.
\<close>

lemma getitem_projection:
  assumes "only_documents A" and "documents A \<noteq> []"
    and "\<forall>d \<in> set (docs_in (documents A)). content d < next_ref w \<and> normalizable (heap w (content d))"
  shows "getitem A AOther w = Inl (ValueError FieldsNotList)
     \<and> getitem A (ACollection B) w = Inl (ValueError FieldsNotList)
     \<and> (\<exists>C w'. getitem A (AList fs) w = Inr (C, w')
          \<and> name C = name A \<and> only_documents C \<and> length (documents C) = length (documents A)
          \<and> (\<forall>r < next_ref w. heap w' r = heap w r)
          \<and> (\<forall>i < length (documents A).
                set (keys (heap w' (content (docs_in (documents C) ! i)))) =
                  (set fs \<inter> set (keys (heap w (content (docs_in (documents A) ! i))))) \<union> {''_id''}
              \<and> (\<forall>k \<in> set fs \<inter> set (keys (heap w (content (docs_in (documents A) ! i)))).
                    map_of (heap w' (content (docs_in (documents C) ! i))) k =
                    map_option normalized_value (map_of (heap w (content (docs_in (documents A) ! i))) k))
              \<and> (''_id'' \<notin> set fs \<inter> set (keys (heap w (content (docs_in (documents A) ! i)))) \<longrightarrow>
                    (\<exists>n. map_of (heap w' (content (docs_in (documents C) ! i))) ''_id'' =
                           Some (VOid (hex_digits 24 n))))))"
proof (intro conjI)
  show "getitem A AOther w = Inl (ValueError FieldsNotList)"
    by (simp add: getitem_def)
  show "getitem A (ACollection B) w = Inl (ValueError FieldsNotList)"
    by (simp add: getitem_def)
  let ?es = "documents A"
  let ?n = "next_ref w"
  let ?m = "length ?es"
  let ?rs = "[?n ..< ?n + ?m]"
  from assms(1) have all: "list_all is_doc ?es" by (simp add: only_documents_def)
  from assms(3) have alloc: "\<forall>d \<in> set (docs_in ?es). content d < ?n" by simp
  from slice_documents_run[OF all alloc, of fs] obtain w1 where
    sl: "slice_documents fs ?es w = Inr (map EDict ?rs, w1)"
    and low: "\<forall>r < ?n. heap w1 r = heap w r"
    and new: "\<forall>i < ?m. heap w1 (?n + i) = slice_dict fs (heap w (content (docs_in ?es ! i)))"
    by blast
  have len: "length (docs_in ?es) = ?m" using all by (rule length_docs_in)
  have norm1: "\<forall>r \<in> set ?rs. normalizable (heap w1 r)"
  proof
    fix r assume "r \<in> set ?rs"
    then have "?n \<le> r \<and> r < ?n + ?m" by simp
    then have "r - ?n < ?m" and "r = ?n + (r - ?n)" by arith+
    then obtain i where i: "i < ?m" and r: "r = ?n + i" by blast
    from i len have "docs_in ?es ! i \<in> set (docs_in ?es)" by simp
    with assms(3) have "normalizable (heap w (content (docs_in ?es ! i)))" by simp
    with new i r show "normalizable (heap w1 r)" by (simp add: slice_dict_normalizable)
  qed
  have dist: "distinct ?rs" by simp
  from build_documents_run[OF dist norm1] obtain ds w' where
    bd: "build_documents (map EDict ?rs) [''_id''] w1 = Inr (map EDoc ds, w')"
    and cs: "map content ds = ?rs"
    and others: "\<forall>r. r \<notin> set ?rs \<longrightarrow> heap w' r = heap w1 r"
    and mine: "\<forall>r \<in> set ?rs. \<exists>n. heap w' r = normalized (with_id (heap w1 r) n)"
    by blast
  from assms(2) have ne: "?rs \<noteq> []" by simp
  let ?C = "\<lparr>name = name A, skip_values = [], documents = map EDoc ds\<rparr>"
  have g: "getitem A (AList fs) w = Inr (?C, w')"
    using sl Collection_init_dicts[OF ne bd] by (simp add: getitem_def)
  have "length (map content ds) = length ?rs" by (simp only: cs)
  then have lds: "length ds = ?m" by simp
  have frame: "\<forall>r < ?n. heap w' r = heap w r"
    using others low by simp
  have each: "\<forall>i < ?m.
      set (keys (heap w' (content (docs_in (documents ?C) ! i)))) =
        (set fs \<inter> set (keys (heap w (content (docs_in ?es ! i))))) \<union> {''_id''}
    \<and> (\<forall>k \<in> set fs \<inter> set (keys (heap w (content (docs_in ?es ! i)))).
          map_of (heap w' (content (docs_in (documents ?C) ! i))) k =
          map_option normalized_value (map_of (heap w (content (docs_in ?es ! i))) k))
    \<and> (''_id'' \<notin> set fs \<inter> set (keys (heap w (content (docs_in ?es ! i)))) \<longrightarrow>
          (\<exists>n. map_of (heap w' (content (docs_in (documents ?C) ! i))) ''_id'' =
                 Some (VOid (hex_digits 24 n))))"
  proof (intro allI impI)
    fix i assume i: "i < ?m"
    have "map content ds ! i = ?rs ! i" by (simp only: cs)
    with i lds have ci: "content (ds ! i) = ?n + i" by simp
    from i have "?n + i \<in> set ?rs" by simp
    with mine obtain k where "heap w' (?n + i) = normalized (with_id (heap w1 (?n + i)) k)"
      by blast
    with new i have "heap w' (?n + i) =
        normalized (with_id (slice_dict fs (heap w (content (docs_in ?es ! i)))) k)"
      by simp
    from projected_dict[OF this] ci
    show "set (keys (heap w' (content (docs_in (documents ?C) ! i)))) =
        (set fs \<inter> set (keys (heap w (content (docs_in ?es ! i))))) \<union> {''_id''}
    \<and> (\<forall>k \<in> set fs \<inter> set (keys (heap w (content (docs_in ?es ! i)))).
          map_of (heap w' (content (docs_in (documents ?C) ! i))) k =
          map_option normalized_value (map_of (heap w (content (docs_in ?es ! i))) k))
    \<and> (''_id'' \<notin> set fs \<inter> set (keys (heap w (content (docs_in ?es ! i)))) \<longrightarrow>
          (\<exists>n. map_of (heap w' (content (docs_in (documents ?C) ! i))) ''_id'' =
                 Some (VOid (hex_digits 24 n))))"
      by simp
  qed
  have props: "name ?C = name A" "only_documents ?C" "length (documents ?C) = ?m"
    using lds by (simp_all add: only_documents_def)
  show "\<exists>C w'. getitem A (AList fs) w = Inr (C, w')
          \<and> name C = name A \<and> only_documents C \<and> length (documents C) = length (documents A)
          \<and> (\<forall>r < next_ref w. heap w' r = heap w r)
          \<and> (\<forall>i < length (documents A).
                set (keys (heap w' (content (docs_in (documents C) ! i)))) =
                  (set fs \<inter> set (keys (heap w (content (docs_in (documents A) ! i))))) \<union> {''_id''}
              \<and> (\<forall>k \<in> set fs \<inter> set (keys (heap w (content (docs_in (documents A) ! i)))).
                    map_of (heap w' (content (docs_in (documents C) ! i))) k =
                    map_option normalized_value (map_of (heap w (content (docs_in (documents A) ! i))) k))
              \<and> (''_id'' \<notin> set fs \<inter> set (keys (heap w (content (docs_in (documents A) ! i)))) \<longrightarrow>
                    (\<exists>n. map_of (heap w' (content (docs_in (documents C) ! i))) ''_id'' =
                           Some (VOid (hex_digits 24 n)))))"
    by (rule exI[of _ ?C], rule exI[of _ w'], intro conjI)
       (fact g, fact props(1), fact props(2), fact props(3), fact frame, fact each)
qed

text \<open>
  At the collection \<open>a\<close> above and the fields \<open>name\<close> and \<open>zip\<close>: two
  records come back, the first has exactly the fields \<open>name\<close> and \<open>_id\<close>, the second
  kept its name.
\<close>

lemma getitem_projection_example:
  "\<exists>C w'. getitem audit_a (AList [''name'', ''zip'']) audit_world = Inr (C, w')
     \<and> name C = ''a'' \<and> length (documents C) = 2
     \<and> set (keys (heap w' (content (docs_in (documents C) ! 0)))) = {''name'', ''_id''}
     \<and> map_of (heap w' (content (docs_in (documents C) ! 1))) ''name'' = Some (VStr ''y'')"
proof -
  have a: "only_documents audit_a" and b: "documents audit_a \<noteq> []"
    by (simp_all add: only_documents_def audit_a_def is_doc_def)
  have c: "\<forall>d \<in> set (docs_in (documents audit_a)).
      content d < next_ref audit_world \<and> normalizable (heap audit_world (content d))"
    by code_simp
  have d0: "heap audit_world (content (docs_in (documents audit_a) ! 0)) =
      [(''_id'', VStr ''1''), (''name'', VStr ''x''), (''status'', VStr ''active'')]"
    and d1: "heap audit_world (content (docs_in (documents audit_a) ! 1)) =
      [(''_id'', VStr ''2''), (''name'', VStr ''y''), (''status'', VStr ''done'')]"
    by (simp_all add: audit_a_def audit_world_def world_of_def)
  have ny: "normalized_value (VStr ''y'') = VStr ''y''"
    by code_simp
  from getitem_projection[OF a b c, of audit_a "[''name'', ''zip'']"]
  obtain C w' where g: "getitem audit_a (AList [''name'', ''zip'']) audit_world = Inr (C, w')"
    and n: "name C = name audit_a" and l: "length (documents C) = length (documents audit_a)"
    and each: "\<forall>i < length (documents audit_a).
        set (keys (heap w' (content (docs_in (documents C) ! i)))) =
          (set [''name'', ''zip''] \<inter> set (keys (heap audit_world (content (docs_in (documents audit_a) ! i))))) \<union> {''_id''}
      \<and> (\<forall>k \<in> set [''name'', ''zip''] \<inter> set (keys (heap audit_world (content (docs_in (documents audit_a) ! i)))).
            map_of (heap w' (content (docs_in (documents C) ! i))) k =
            map_option normalized_value (map_of (heap audit_world (content (docs_in (documents audit_a) ! i))) k))
      \<and> (''_id'' \<notin> set [''name'', ''zip''] \<inter> set (keys (heap audit_world (content (docs_in (documents audit_a) ! i)))) \<longrightarrow>
            (\<exists>n. map_of (heap w' (content (docs_in (documents C) ! i))) ''_id'' =
                   Some (VOid (hex_digits 24 n))))"
    by blast
  have two: "length (documents audit_a) = 2" by (simp add: audit_a_def)
  from two have "0 < length (documents audit_a)" by simp
  with each have "set (keys (heap w' (content (docs_in (documents C) ! 0)))) =
          (set [''name'', ''zip''] \<inter> set (keys (heap audit_world (content (docs_in (documents audit_a) ! 0))))) \<union> {''_id''}"
    by blast
  then have k0: "set (keys (heap w' (content (docs_in (documents C) ! 0)))) = {''name'', ''_id''}"
    unfolding d0 by (simp add: keys_def insert_commute)
  from two have "1 < length (documents audit_a)" by simp
  with each have "\<forall>k \<in> set [''name'', ''zip''] \<inter> set (keys (heap audit_world (content (docs_in (documents audit_a) ! 1)))).
            map_of (heap w' (content (docs_in (documents C) ! 1))) k =
            map_option normalized_value (map_of (heap audit_world (content (docs_in (documents audit_a) ! 1))) k)"
    by blast
  then have k1: "map_of (heap w' (content (docs_in (documents C) ! 1))) ''name'' = Some (VStr ''y'')"
    unfolding d1 by (simp add: keys_def ny)
  from g n l two k0 k1 show ?thesis
    by (simp add: audit_a_def)
qed

text \<open>
  Claim C7. Projecting the record \<open>{'_id': 'u1', 'name': 'x'}\<close> on \<open>['name']\<close> gives a
  record with the fields \<open>name\<close> and \<open>_id\<close>: the rebuilt record is keyed by \<open>_id\<close>,
  which the slice lacks, so a new \<open>ObjectId\<close> is stored under it, a field that is not
  among the requested ones. Projecting the empty collection raises \<open>IndexError\<close>.
\<close>

theorem getitem_adds_identity_field:
  "map_sum id (\<lambda>(C, w'). map (\<lambda>d. heap w' (content d)) (docs_in (documents C)))
       (getitem one_doc (AList [''name'']) one_world)
     = Inr [[(''name'', VStr ''x''), (''_id'', VOid ''000000000000000000000000'')]]
   \<and> ''_id'' \<notin> set [''name''] \<inter> set (keys (heap one_world 0))
   \<and> map_sum id fst (getitem empty_a (AList [''name'']) (world_of [])) = Inl IndexError"
  by code_simp

section \<open>Inputs on which the code leaves its contract\<close>

text \<open>
  Claim C3. \<open>Collection(name, [])\<close> does not return: the list branch reads \<open>docs[0]\<close>,
  which raises \<open>IndexError\<close> on the empty list.
\<close>

theorem Collection_init_empty_list:
  "Collection_init nm (SList []) ids sv w = Inl IndexError"
  by (simp add: Collection_init_def)

text \<open>
  Claim C4. With the key fields \<open>a\<close> and \<open>b\<close> and the record \<open>{'a': 5, 'b': 'x'}\<close> the
  identity is not derived: \<open>str.join\<close> raises \<open>TypeError\<close> on the integer.
\<close>

theorem Document_init_join_non_str:
  "Document_init 0 [''a'', ''b''] (world_of [[(''a'', VInt 5), (''b'', VStr ''x'')]]) = Inl TypeError"
  by (simp add: Document_init_def derive_id_def world_of_def has_key_def dict_get_def)

text \<open>
  Claim C9. A value of 24 lower-case hexadecimal digits followed by a line feed passes the
  pattern, and \<open>ObjectId\<close> rejects it: normalization raises \<open>InvalidId\<close>.
\<close>

theorem normalize_identifiers_line_feed:
  "normalize_identifiers [(''k'', VStr (replicate 24 CHR ''a'' @ [CHR 0x0A]))] = Inl InvalidId"
  by code_simp

text \<open>
  Claim C2. \<open>transform\<close> and \<open>resolve\<close> on the record with the identity \<open>u1\<close> return a
  record whose identity is the empty string: the identity \<open>u1\<close> is read as the two key
  fields \<open>u\<close> and \<open>1\<close>, which the record does not have.
\<close>

theorem transform_resolve_identity_lost:
  "map_sum id (\<lambda>(s, c, w). map_option documents c)
       (transform one_doc ''n2'' ''name'' (\<lambda>v. v) False one_world)
     = Inr (Some [EDoc \<lparr>content = 1, id_str = []\<rparr>])
   \<and> map_sum id (\<lambda>(s, c, w). map_option documents c)
       (resolve one_doc one_doc [(''name'', ''name'')] False one_world)
     = Inr (Some [EDoc \<lparr>content = 1, id_str = []\<rparr>])"
  by code_simp

text \<open>
  Claim C8. \<open>remove_ids(in_place=False)\<close> changes the content of the original record:
  its \<open>_id\<close> is popped from the very dict the record holds, and the constructor of the
  returned collection then stores a new \<open>ObjectId\<close> in that dict.
\<close>

theorem remove_ids_copy_changes_original:
  "heap one_world 0 = [(''_id'', VStr ''u1''), (''name'', VStr ''x'')]
   \<and> map_sum id (\<lambda>(s, c, w). (documents s, heap w 0)) (remove_ids one_doc False one_world)
     = Inr ([EDoc \<lparr>content = 0, id_str = ''u1''\<rparr>],
            [(''name'', VStr ''x''), (''_id'', VOid ''000000000000000000000000'')])"
  by code_simp

text \<open>
  Claim C10. After \<open>remove_ids(in_place=True)\<close> the collection's \<open>documents\<close> holds a raw
  dict and no \<open>Document\<close>, and the next operation that reads \<open>content\<close> or \<open>id\<close> of an
  element, here \<open>__contains__\<close>, raises \<open>AttributeError\<close>.
\<close>

theorem remove_ids_in_place_leaves_dicts:
  "map_sum id (\<lambda>(s, c, w). (documents s, only_documents s, map_sum id fst (contains s s w)))
       (remove_ids one_doc True one_world)
     = Inr ([EDict 0], False, Inl AttributeError)"
  by code_simp

end
